theory Spec2Isabelle
  imports Complex_Main
begin

section \<open>Library functions the server relies on\<close>

text \<open>
  Go's \<open>int64\<close> (and \<open>int\<close>, which is 64 bits wide on the platforms the server is
  built for) is modelled as \<open>int\<close> with the two's-complement wrap-around written out.
\<close>

type_synonym int64 = int

definition wrap64 :: "int \<Rightarrow> int64" where
  "wrap64 x = (x + 2 ^ 63) mod 2 ^ 64 - 2 ^ 63"

definition isDigit :: "char \<Rightarrow> bool" where
  "isDigit c = ((48::nat) \<le> of_char c \<and> of_char c \<le> (57::nat))"

definition digitsVal :: "string \<Rightarrow> int" where
  "digitsVal ds = foldl (\<lambda>a c. 10 * a + (int (of_char c) - 48)) 0 ds"

text \<open>
  \<open>strconv.ParseInt(s, 10, 64)\<close>: an optional sign, then at least one decimal digit and
  nothing else; a value outside the signed 64-bit range is an error. The callers only
  test \<open>err != nil\<close>, so the error is \<open>None\<close>.
\<close>

definition ParseInt :: "string \<Rightarrow> int64 option" where
  "ParseInt s =
     (case s of
        [] \<Rightarrow> None
      | c # cs \<Rightarrow>
          (let neg = (c = CHR ''-'');
               ds = (if c = CHR ''+'' \<or> c = CHR ''-'' then cs else s)
           in if ds = [] \<or> \<not> list_all isDigit ds then None
              else (let un = digitsVal ds
                    in if \<not> neg \<and> un \<ge> 2 ^ 63 then None
                       else if neg \<and> un > 2 ^ 63 then None
                       else Some (if neg then - un else un))))"

text \<open>\<open>strconv.Atoi\<close> is \<open>ParseInt(s, 10, 0)\<close> narrowed to \<open>int\<close>, which is 64 bits wide.\<close>

definition Atoi :: "string \<Rightarrow> int option" where
  "Atoi s = ParseInt s"

fun natToDec :: "nat \<Rightarrow> string" where
  "natToDec n =
     (if n < 10 then [char_of (48 + n)]
      else natToDec (n div 10) @ [char_of (48 + n mod 10)])"

declare natToDec.simps [simp del]

text \<open>\<open>strconv.FormatInt(i, 10)\<close>.\<close>

definition FormatInt :: "int64 \<Rightarrow> string" where
  "FormatInt i = (if i < 0 then CHR ''-'' # natToDec (nat (- i)) else natToDec (nat i))"

text \<open>
  \<open>strings.ToUpper\<close>. A string of ASCII bytes only is handled by the function itself:
  the letters \<open>a\<close> to \<open>z\<close> go to \<open>A\<close> to \<open>Z\<close> and every other byte stays. Any other string
  is handed to \<open>Map(unicode.ToUpper, s)\<close>, which works from the case tables of the
  \<open>unicode\<close> package; that mapping is the argument \<open>unicodeUpper\<close>.
\<close>

definition upperChar :: "char \<Rightarrow> char" where
  "upperChar c =
     (if 97 \<le> (of_char c :: nat) \<and> of_char c \<le> (122 :: nat)
      then char_of (of_char c - (32 :: nat)) else c)"

definition isASCII :: "string \<Rightarrow> bool" where
  "isASCII s = list_all (\<lambda>c. (of_char c :: nat) < 128) s"

definition ToUpper :: "(string \<Rightarrow> string) \<Rightarrow> string \<Rightarrow> string" where
  "ToUpper unicodeUpper s = (if isASCII s then map upperChar s else unicodeUpper s)"

text \<open>
  Go's \<open>float64\<close>. A value is the rational number it denotes, and every operation
  rounds its exact result to the nearest number with a 53-bit significand, ties to the
  even significand. \<open>ilog2 n\<close> is the position of the leading bit of \<open>n\<close>; \<open>ulp x\<close> is
  the distance between neighbouring \<open>float64\<close> values in the binade of \<open>x > 0\<close>, that
  is \<open>2 ^ (e - 52)\<close> for \<open>2 ^ e \<le> x < 2 ^ (e + 1)\<close>. The exponent is not bounded here:
  the magnitudes that occur lie between \<open>10^-9\<close> and \<open>2^34\<close>, far from the subnormal
  and the overflow range.
\<close>

fun ilog2 :: "nat \<Rightarrow> nat" where
  "ilog2 n = (if n < 2 then 0 else Suc (ilog2 (n div 2)))"

declare ilog2.simps [simp del]

definition ulp :: "rat \<Rightarrow> rat" where
  "ulp x =
     (if 1 \<le> x then 2 ^ ilog2 (nat \<lfloor>x\<rfloor>) / 2 ^ 52
      else 1 / (2 ^ Suc (ilog2 (nat (\<lceil>1 / x\<rceil> - 1))) * 2 ^ 52))"

definition roundEven :: "rat \<Rightarrow> int" where
  "roundEven m =
     (let f = \<lfloor>m\<rfloor>; r = m - of_int f
      in if r < 1 / 2 then f else if 1 / 2 < r then f + 1 else if even f then f else f + 1)"

definition float64 :: "rat \<Rightarrow> rat" where
  "float64 x =
     (if x = 0 then 0
      else if 0 < x then of_int (roundEven (x / ulp x)) * ulp x
      else - (of_int (roundEven (- x / ulp (- x))) * ulp (- x)))"

text \<open>
  \<open>Duration.Seconds\<close>: \<open>sec := d / Second; nsec := d % Second; return float64(sec) +
  float64(nsec)/1e9\<close>. Go's integer division truncates towards zero and the remainder
  has the sign of \<open>d\<close>. The conversions \<open>float64(sec)\<close> and \<open>float64(nsec)\<close> are exact
  (\<open>|sec| < 2^34\<close> and \<open>|nsec| < 10^9\<close> are below \<open>2^53\<close>), as is the constant \<open>1e9\<close>;
  the quotient and the sum round.
\<close>

definition Seconds :: "int64 \<Rightarrow> rat" where
  "Seconds d =
     (let sec = sgn d * (\<bar>d\<bar> div 1000000000);
          nsec = sgn d * (\<bar>d\<bar> mod 1000000000)
      in float64 (of_int sec + float64 (of_int nsec / 1000000000)))"

text \<open>The conversion \<open>int64(f)\<close> of a \<open>float64\<close> drops the fraction.\<close>

definition toInt64 :: "rat \<Rightarrow> int64" where
  "toInt64 r = (if 0 \<le> r then \<lfloor>r\<rfloor> else \<lceil>r\<rceil>)"

section \<open>The database (internal/database/database.go)\<close>

text \<open>
  An instant (\<open>time.Time\<close>) is a number of nanoseconds on one time line; a
  \<open>time.Duration\<close> is an \<open>int64\<close> count of nanoseconds. Every operation that reads
  \<open>time.Now()\<close> takes the instant as its argument \<open>now\<close>.
\<close>

type_synonym Time = int

datatype ValueType = StringType | HashType | ListType | SetType

record Value =
  Type :: ValueType
  StrVal :: string
  HashVal :: "string \<rightharpoonup> string"
  ListVal :: "string list"
  SetVal :: "string set"
  ExpireAt :: "Time option"

record Database =
  data :: "string \<rightharpoonup> Value"
  expiry :: "string \<rightharpoonup> Time"

definition NewDatabase :: Database where
  "NewDatabase = \<lparr>data = Map.empty, expiry = Map.empty\<rparr>"

text \<open>The \<open>Value\<close> literal of \<open>Set\<close>: the fields not named are Go's zero values.\<close>

definition stringValue :: "string \<Rightarrow> Value" where
  "stringValue v =
     \<lparr>Type = StringType, StrVal = v, HashVal = Map.empty, ListVal = [], SetVal = {},
      ExpireAt = None\<rparr>"

definition Set :: "Database \<Rightarrow> string \<Rightarrow> string \<Rightarrow> Database" where
  "Set db key v =
     db\<lparr>data := (data db)(key \<mapsto> stringValue v), expiry := (expiry db)(key := None)\<rparr>"

definition isExpired :: "Time \<Rightarrow> Database \<Rightarrow> string \<Rightarrow> bool" where
  "isExpired now db key =
     (case expiry db key of None \<Rightarrow> False | Some e \<Rightarrow> e < now)"

definition purge :: "Database \<Rightarrow> string \<Rightarrow> Database" where
  "purge db key = db\<lparr>data := (data db)(key := None), expiry := (expiry db)(key := None)\<rparr>"

definition Get :: "Time \<Rightarrow> Database \<Rightarrow> string \<Rightarrow> (string \<times> bool) \<times> Database" where
  "Get now db key =
     (if isExpired now db key then (([], False), purge db key)
      else (case data db key of
              None \<Rightarrow> (([], False), db)
            | Some val \<Rightarrow>
                if Type val \<noteq> StringType then (([], False), db)
                else ((StrVal val, True), db)))"

definition Del :: "Database \<Rightarrow> string \<Rightarrow> bool \<times> Database" where
  "Del db key =
     (case data db key of
        Some val \<Rightarrow> (True, purge db key)
      | None \<Rightarrow> (False, db))"

definition Exists :: "Time \<Rightarrow> Database \<Rightarrow> string \<Rightarrow> bool \<times> Database" where
  "Exists now db key =
     (if isExpired now db key then (False, purge db key)
      else (data db key \<noteq> None, db))"

text \<open>
  \<open>Expire\<close>: \<open>time.Duration(seconds) * time.Second\<close> is an \<open>int64\<close> product and wraps.
\<close>

definition Expire :: "Time \<Rightarrow> Database \<Rightarrow> string \<Rightarrow> int \<Rightarrow> bool \<times> Database" where
  "Expire now db key seconds =
     (case data db key of
        None \<Rightarrow> (False, db)
      | Some val \<Rightarrow>
          (True, db\<lparr>expiry := (expiry db)(key \<mapsto> now + wrap64 (seconds * 1000000000))\<rparr>))"

text \<open>
  \<open>TTL\<close>: \<open>expiry.Sub(now)\<close> is a \<open>Duration\<close>, saturated to the \<open>int64\<close> range;
  \<open>remaining\<close> is its \<open>Seconds()\<close>, a \<open>float64\<close>, and \<open>int64(remaining)\<close> drops the
  fraction of that floating-point number.
\<close>

definition Sub :: "Time \<Rightarrow> Time \<Rightarrow> int64" where
  "Sub t u = max (- (2 ^ 63)) (min (2 ^ 63 - 1) (t - u))"

definition TTL :: "Time \<Rightarrow> Database \<Rightarrow> string \<Rightarrow> int64 \<times> Database" where
  "TTL now db key =
     (case data db key of
        None \<Rightarrow> (- 2, db)
      | Some val \<Rightarrow>
          (case expiry db key of
             None \<Rightarrow> (- 1, db)
           | Some e \<Rightarrow>
               (let remaining = Seconds (Sub e now)
                in if remaining \<le> 0 then (- 2, purge db key)
                   else (toInt64 remaining, db))))"

text \<open>
  \<open>Keys\<close> ranges over the \<open>data\<close> map; Go leaves the order of that iteration open, so
  the order in which the keys of \<open>data\<close> are visited is the argument \<open>order\<close>.
\<close>

definition Keys :: "Time \<Rightarrow> Database \<Rightarrow> string list \<Rightarrow> string list" where
  "Keys now db order = filter (\<lambda>key. \<not> isExpired now db key) order"

definition cleanupExpired :: "Time \<Rightarrow> Database \<Rightarrow> Database" where
  "cleanupExpired now db =
     \<lparr>data = (\<lambda>key. if isExpired now db key then None else data db key),
      expiry = (\<lambda>key. if isExpired now db key then None else expiry db key)\<rparr>"

text \<open>
  \<open>HSet\<close> on a key of another type retypes the stored \<open>Value\<close> in place: \<open>Type\<close> and
  \<open>HashVal\<close> are replaced, the other fields stay. The expiry of the key is not touched.
\<close>

definition HSet :: "Database \<Rightarrow> string \<Rightarrow> string \<Rightarrow> string \<Rightarrow> Database" where
  "HSet db key field v =
     (let val = (case data db key of
                   None \<Rightarrow> \<lparr>Type = HashType, StrVal = [], HashVal = Map.empty, ListVal = [],
                             SetVal = {}, ExpireAt = None\<rparr>
                 | Some val \<Rightarrow>
                     if Type val \<noteq> HashType
                     then val\<lparr>Type := HashType, HashVal := Map.empty\<rparr>
                     else val)
      in db\<lparr>data := (data db)(key \<mapsto> val\<lparr>HashVal := (HashVal val)(field \<mapsto> v)\<rparr>)\<rparr>)"

definition HGet :: "Time \<Rightarrow> Database \<Rightarrow> string \<Rightarrow> string \<Rightarrow> string \<times> bool" where
  "HGet now db key field =
     (if isExpired now db key then ([], False)
      else (case data db key of
              None \<Rightarrow> ([], False)
            | Some val \<Rightarrow>
                if Type val \<noteq> HashType then ([], False)
                else (case HashVal val field of
                        None \<Rightarrow> ([], False)
                      | Some v \<Rightarrow> (v, True))))"

definition HDel :: "Database \<Rightarrow> string \<Rightarrow> string \<Rightarrow> bool \<times> Database" where
  "HDel db key field =
     (case data db key of
        None \<Rightarrow> (False, db)
      | Some val \<Rightarrow>
          if Type val \<noteq> HashType then (False, db)
          else (case HashVal val field of
                  Some v \<Rightarrow>
                    (True, db\<lparr>data := (data db)(key \<mapsto> val\<lparr>HashVal := (HashVal val)(field := None)\<rparr>)\<rparr>)
                | None \<Rightarrow> (False, db)))"

section \<open>Protocol values (internal/protocol/resp.go)\<close>

datatype RESPType = SimpleString | Error | Integer | BulkString | Array

text \<open>The struct \<open>RESPValue\<close>; its fields \<open>Type\<close> and \<open>Array\<close> are \<open>RType\<close> and \<open>RArray\<close> here.\<close>

datatype RESPValue =
  RESPValue (RType: RESPType) (Str: string) (Num: int64) (RArray: "RESPValue list") (Null: bool)

text \<open>The struct literals the handlers return; fields not named are zero values.\<close>

definition errorValue :: "string \<Rightarrow> RESPValue" where
  "errorValue msg = RESPValue Error msg 0 [] False"

definition simpleValue :: "string \<Rightarrow> RESPValue" where
  "simpleValue msg = RESPValue SimpleString msg 0 [] False"

definition integerValue :: "int64 \<Rightarrow> RESPValue" where
  "integerValue n = RESPValue Integer [] n [] False"

definition bulkValue :: "string \<Rightarrow> RESPValue" where
  "bulkValue v = RESPValue BulkString v 0 [] False"

definition nullValue :: RESPValue where
  "nullValue = RESPValue BulkString [] 0 [] True"

definition arrayValue :: "RESPValue list \<Rightarrow> RESPValue" where
  "arrayValue vs = RESPValue Array [] 0 vs False"

section \<open>Command handlers (internal/server/commands.go)\<close>

text \<open>
  The handlers are methods of the server that only touch its database, so each takes
  the database and returns it with the reply.
\<close>

definition handlePing :: "string list \<Rightarrow> RESPValue" where
  "handlePing args = (case args of [] \<Rightarrow> simpleValue ''PONG'' | a # _ \<Rightarrow> bulkValue a)"

definition handleSet :: "Database \<Rightarrow> string list \<Rightarrow> RESPValue \<times> Database" where
  "handleSet db args =
     (case args of
        key # v # _ \<Rightarrow> (simpleValue ''OK'', Set db key v)
      | _ \<Rightarrow> (errorValue ''ERR wrong number of arguments for 'set' command'', db))"

definition handleGet :: "Time \<Rightarrow> Database \<Rightarrow> string list \<Rightarrow> RESPValue \<times> Database" where
  "handleGet now db args =
     (case args of
        [key] \<Rightarrow>
          (case Get now db key of
             ((v, exists), db') \<Rightarrow> (if \<not> exists then nullValue else bulkValue v, db'))
      | _ \<Rightarrow> (errorValue ''ERR wrong number of arguments for 'get' command'', db))"

fun delLoop :: "Database \<Rightarrow> string list \<Rightarrow> int \<Rightarrow> int \<times> Database" where
  "delLoop db [] deleted = (deleted, db)"
| "delLoop db (key # keys) deleted =
     (case Del db key of
        (True, db') \<Rightarrow> delLoop db' keys (deleted + 1)
      | (False, db') \<Rightarrow> delLoop db' keys deleted)"

definition handleDel :: "Database \<Rightarrow> string list \<Rightarrow> RESPValue \<times> Database" where
  "handleDel db args =
     (if args = [] then (errorValue ''ERR wrong number of arguments for 'del' command'', db)
      else (case delLoop db args 0 of (deleted, db') \<Rightarrow> (integerValue deleted, db')))"

fun existsLoop :: "Time \<Rightarrow> Database \<Rightarrow> string list \<Rightarrow> int \<Rightarrow> int \<times> Database" where
  "existsLoop now db [] count = (count, db)"
| "existsLoop now db (key # keys) count =
     (case Exists now db key of
        (True, db') \<Rightarrow> existsLoop now db' keys (count + 1)
      | (False, db') \<Rightarrow> existsLoop now db' keys count)"

definition handleExists :: "Time \<Rightarrow> Database \<Rightarrow> string list \<Rightarrow> RESPValue \<times> Database" where
  "handleExists now db args =
     (if args = [] then (errorValue ''ERR wrong number of arguments for 'exists' command'', db)
      else (case existsLoop now db args 0 of (count, db') \<Rightarrow> (integerValue count, db')))"

definition handleExpire :: "Time \<Rightarrow> Database \<Rightarrow> string list \<Rightarrow> RESPValue \<times> Database" where
  "handleExpire now db args =
     (case args of
        [key, secs] \<Rightarrow>
          (case Atoi secs of
             None \<Rightarrow> (errorValue ''ERR value is not an integer or out of range'', db)
           | Some seconds \<Rightarrow>
               (case Expire now db key seconds of
                  (True, db') \<Rightarrow> (integerValue 1, db')
                | (False, db') \<Rightarrow> (integerValue 0, db')))
      | _ \<Rightarrow> (errorValue ''ERR wrong number of arguments for 'expire' command'', db))"

definition handleTTL :: "Time \<Rightarrow> Database \<Rightarrow> string list \<Rightarrow> RESPValue \<times> Database" where
  "handleTTL now db args =
     (case args of
        [key] \<Rightarrow> (case TTL now db key of (ttl, db') \<Rightarrow> (integerValue ttl, db'))
      | _ \<Rightarrow> (errorValue ''ERR wrong number of arguments for 'ttl' command'', db))"

definition handleKeys :: "Time \<Rightarrow> string list \<Rightarrow> Database \<Rightarrow> string list \<Rightarrow> RESPValue" where
  "handleKeys now order db args = arrayValue (map bulkValue (Keys now db order))"

definition handleHSet :: "Database \<Rightarrow> string list \<Rightarrow> RESPValue \<times> Database" where
  "handleHSet db args =
     (case args of
        [key, field, v] \<Rightarrow> (integerValue 1, HSet db key field v)
      | _ \<Rightarrow> (errorValue ''ERR wrong number of arguments for 'hset' command'', db))"

definition handleHGet :: "Time \<Rightarrow> Database \<Rightarrow> string list \<Rightarrow> RESPValue" where
  "handleHGet now db args =
     (case args of
        [key, field] \<Rightarrow>
          (case HGet now db key field of
             (v, exists) \<Rightarrow> if \<not> exists then nullValue else bulkValue v)
      | _ \<Rightarrow> errorValue ''ERR wrong number of arguments for 'hget' command'')"

fun hdelLoop :: "Database \<Rightarrow> string \<Rightarrow> string list \<Rightarrow> int \<Rightarrow> int \<times> Database" where
  "hdelLoop db key [] deleted = (deleted, db)"
| "hdelLoop db key (field # flds) deleted =
     (case HDel db key field of
        (True, db') \<Rightarrow> hdelLoop db' key flds (deleted + 1)
      | (False, db') \<Rightarrow> hdelLoop db' key flds deleted)"

definition handleHDel :: "Database \<Rightarrow> string list \<Rightarrow> RESPValue \<times> Database" where
  "handleHDel db args =
     (case args of
        key # field # flds \<Rightarrow>
          (case hdelLoop db key (field # flds) 0 of
             (deleted, db') \<Rightarrow> (integerValue deleted, db'))
      | _ \<Rightarrow> (errorValue ''ERR wrong number of arguments for 'hdel' command'', db))"

text \<open>\<open>intValue++\<close> and \<open>intValue--\<close> are \<open>int64\<close> operations: they wrap.\<close>

definition handleIncr :: "Time \<Rightarrow> Database \<Rightarrow> string list \<Rightarrow> RESPValue \<times> Database" where
  "handleIncr now db args =
     (case args of
        [key] \<Rightarrow>
          (case Get now db key of
             ((v, exists), db') \<Rightarrow>
               (case (if exists then ParseInt v else Some 0) of
                  None \<Rightarrow> (errorValue ''ERR value is not an integer or out of range'', db')
                | Some num \<Rightarrow>
                    (let intValue = wrap64 (num + 1)
                     in (integerValue intValue, Set db' key (FormatInt intValue)))))
      | _ \<Rightarrow> (errorValue ''ERR wrong number of arguments for 'incr' command'', db))"

definition handleDecr :: "Time \<Rightarrow> Database \<Rightarrow> string list \<Rightarrow> RESPValue \<times> Database" where
  "handleDecr now db args =
     (case args of
        [key] \<Rightarrow>
          (case Get now db key of
             ((v, exists), db') \<Rightarrow>
               (case (if exists then ParseInt v else Some 0) of
                  None \<Rightarrow> (errorValue ''ERR value is not an integer or out of range'', db')
                | Some num \<Rightarrow>
                    (let intValue = wrap64 (num - 1)
                     in (integerValue intValue, Set db' key (FormatInt intValue)))))
      | _ \<Rightarrow> (errorValue ''ERR wrong number of arguments for 'decr' command'', db))"

section \<open>Persistence (internal/persistence/persistence.go)\<close>

text \<open>
  The server owns the database and the persistence manager, and the manager writes the
  two files \<open>appendonly.aof\<close> and \<open>dump.rdb\<close>. The state is flattened into one record:
  the database, the manager's two flags and the contents of the two files (\<open>None\<close>: the
  file does not exist). File operations other than opening a missing file succeed.

  \<open>dump.rdb\<close> holds two gob-encoded \<open>map[string]interface{}\<close> values whose entries are
  strings or \<open>int64\<close>s; gob decodes what it encoded, so the file is the pair of maps.
\<close>

datatype GobVal = GobString string | GobInt int64

record RDBFile =
  metadata :: "string \<rightharpoonup> GobVal"
  rdbData :: "string \<rightharpoonup> GobVal"

record Server =
  db :: Database
  aofEnabled :: bool
  rdbEnabled :: bool
  aofFile :: "string option"
  rdbFile :: "RDBFile option"

text \<open>\<open>NewServer\<close> enables both AOF and RDB; the files are whatever the disk holds.\<close>

definition NewServer :: "string option \<Rightarrow> RDBFile option \<Rightarrow> Server" where
  "NewServer aof rdb =
     \<lparr>db = NewDatabase, aofEnabled = True, rdbEnabled = True, aofFile = aof, rdbFile = rdb\<rparr>"

definition newline :: char where
  "newline = CHR 0x0A"

definition WriteAOF :: "Server \<Rightarrow> string \<Rightarrow> Server" where
  "WriteAOF s command =
     (if \<not> aofEnabled s then s
      else s\<lparr>aofFile :=
               Some ((case aofFile s of None \<Rightarrow> [] | Some content \<Rightarrow> content)
                     @ command @ [newline])\<rparr>)"

text \<open>
  \<open>bufio.Scanner\<close> with its default split function: lines end at a newline, a carriage
  return before it is dropped, and a last line without newline is returned when it is
  not empty. The scanner's buffer holds at most 65536 bytes, the line with its newline
  included: at a line of more than 65535 bytes the scan stops with \<open>ErrTooLong\<close>,
  after the lines before it.
\<close>

definition dropCR :: "string \<Rightarrow> string" where
  "dropCR cur = (if cur \<noteq> [] \<and> last cur = CHR 0x0D then butlast cur else cur)"

fun rawLines :: "string \<Rightarrow> string \<Rightarrow> string list" where
  "rawLines [] cur = (if cur = [] then [] else [cur])"
| "rawLines (c # cs) cur =
     (if c = newline then cur # rawLines cs [] else rawLines cs (cur @ [c]))"

datatype PersistError = OpenError | ErrTooLong

definition scanLines :: "string \<Rightarrow> string list \<times> PersistError option" where
  "scanLines content =
     (let ls = rawLines content [];
          fits = (\<lambda>l. length l \<le> 65535)
      in (map dropCR (takeWhile fits ls), if list_all fits ls then None else Some ErrTooLong))"

text \<open>
  \<open>LoadAOF\<close> prints one line per record of the log and does nothing else; the result
  is the error, the lines printed and the server.
\<close>

definition LoadAOF :: "Server \<Rightarrow> PersistError option \<times> string list \<times> Server" where
  "LoadAOF s =
     (if \<not> aofEnabled s then (None, [], s)
      else (case aofFile s of
              None \<Rightarrow> (Some OpenError, [], s)
            | Some content \<Rightarrow>
                (case scanLines content of
                   (commands, err) \<Rightarrow>
                     (err, map (\<lambda>command. ''Replaying command: '' @ command) commands, s))))"

text \<open>
  The loop of \<open>SaveRDB\<close> over the keys: \<open>Get\<close> and \<open>TTL\<close> are the database's own
  operations, with their purging of expired keys. A save runs at one instant \<open>now\<close>,
  and \<open>order\<close> is the order in which \<open>Keys\<close> visits the keys of the database.
\<close>

fun saveLoop ::
  "Time \<Rightarrow> Database \<Rightarrow> string list \<Rightarrow> (string \<rightharpoonup> GobVal) \<Rightarrow> (string \<rightharpoonup> GobVal) \<times> Database"
where
  "saveLoop now base [] d = (d, base)"
| "saveLoop now base (key # keys) d =
     (case Get now base key of
        ((v, exists), db1) \<Rightarrow>
          (let d1 = (if exists then d(key \<mapsto> GobString v) else d)
           in (case TTL now db1 key of
                 (ttl, db2) \<Rightarrow>
                   (let d2 = (if ttl > 0 then d1(key @ ''__ttl__'' \<mapsto> GobInt ttl) else d1)
                    in saveLoop now db2 keys d2))))"

definition SaveRDB :: "Time \<Rightarrow> string list \<Rightarrow> Server \<Rightarrow> Server" where
  "SaveRDB now order s =
     (if \<not> rdbEnabled s then s
      else (case saveLoop now (db s) (Keys now (db s) order) Map.empty of
              (d, db') \<Rightarrow>
                s\<lparr>db := db',
                  rdbFile := Some \<lparr>metadata = [''version'' \<mapsto> GobString ''1.0'',
                                               ''timestamp'' \<mapsto> GobInt (now div 1000000000)],
                                   rdbData = d\<rparr>\<rparr>))"

text \<open>
  The loop of \<open>LoadRDB\<close> ranges over the decoded map, in the order \<open>order\<close> that the
  iteration visits its keys.
\<close>

fun loadLoop :: "Database \<Rightarrow> (string \<rightharpoonup> GobVal) \<Rightarrow> string list \<Rightarrow> Database" where
  "loadLoop base d [] = base"
| "loadLoop base d (key # keys) =
     (case d key of
        Some (GobString strVal) \<Rightarrow> loadLoop (Set base key strVal) d keys
      | _ \<Rightarrow> loadLoop base d keys)"

definition LoadRDB :: "string list \<Rightarrow> Server \<Rightarrow> PersistError option \<times> Server" where
  "LoadRDB order s =
     (if \<not> rdbEnabled s then (None, s)
      else (case rdbFile s of
              None \<Rightarrow> (Some OpenError, s)
            | Some file \<Rightarrow> (None, s\<lparr>db := loadLoop (db s) (rdbData file) order\<rparr>)))"

section \<open>The dispatcher (internal/server/commands.go)\<close>

definition isWriteCommand :: "string \<Rightarrow> bool" where
  "isWriteCommand command =
     (command \<in> {''SET'', ''DEL'', ''EXPIRE'', ''HSET'', ''HDEL'', ''INCR'', ''DECR''})"

text \<open>The text handed to \<open>WriteAOF\<close>: the verb, then a space and the argument, for each.\<close>

definition cmdStr :: "string \<Rightarrow> string list \<Rightarrow> string" where
  "cmdStr command args = foldl (\<lambda>acc arg. acc @ '' '' @ arg) command args"

text \<open>The \<open>switch\<close> of \<open>executeCommand\<close>.\<close>

definition dispatch ::
  "Time \<Rightarrow> string list \<Rightarrow> Database \<Rightarrow> string \<Rightarrow> string list \<Rightarrow> RESPValue \<times> Database"
where
  "dispatch now order d command args =
     (if command = ''PING'' then (handlePing args, d)
      else if command = ''SET'' then handleSet d args
      else if command = ''GET'' then handleGet now d args
      else if command = ''DEL'' then handleDel d args
      else if command = ''EXISTS'' then handleExists now d args
      else if command = ''EXPIRE'' then handleExpire now d args
      else if command = ''TTL'' then handleTTL now d args
      else if command = ''KEYS'' then (handleKeys now order d args, d)
      else if command = ''HSET'' then handleHSet d args
      else if command = ''HGET'' then (handleHGet now d args, d)
      else if command = ''HDEL'' then handleHDel d args
      else if command = ''INCR'' then handleIncr now d args
      else if command = ''DECR'' then handleDecr now d args
      else (errorValue (''ERR unknown command '' @ [CHR 0x27] @ command @ [CHR 0x27]), d))"

definition executeCommand ::
  "(string \<Rightarrow> string) \<Rightarrow> Time \<Rightarrow> string list \<Rightarrow> Server \<Rightarrow> RESPValue \<Rightarrow> RESPValue \<times> Server"
where
  "executeCommand unicodeUpper now order s cmd =
     (if RType cmd \<noteq> Array then (errorValue ''ERR invalid command format'', s)
      else (case RArray cmd of
              [] \<Rightarrow> (errorValue ''ERR invalid command format'', s)
            | verb # rest \<Rightarrow>
                (let command = ToUpper unicodeUpper (Str verb);
                     args = map Str rest;
                     s1 = (if isWriteCommand command then WriteAOF s (cmdStr command args)
                           else s)
                 in (case dispatch now order (db s1) command args of
                       (reply, db') \<Rightarrow> (reply, s1\<lparr>db := db'\<rparr>)))))"

text \<open>
  A request as the connection loop builds it from the strings it read: an array of
  bulk strings.
\<close>

definition request :: "string list \<Rightarrow> RESPValue" where
  "request parts = arrayValue (map bulkValue parts)"

text \<open>
  A sequence of requests executed one after the other; each comes with the instant at
  which it runs and the order in which the map iteration of \<open>KEYS\<close> would visit the keys.
\<close>

fun executeAll ::
  "(string \<Rightarrow> string) \<Rightarrow> Server \<Rightarrow> (Time \<times> string list \<times> string list) list \<Rightarrow>
   RESPValue list \<times> Server"
where
  "executeAll unicodeUpper s [] = ([], s)"
| "executeAll unicodeUpper s ((now, order, parts) # reqs) =
     (case executeCommand unicodeUpper now order s (request parts) of
        (reply, s') \<Rightarrow>
          (case executeAll unicodeUpper s' reqs of
             (replies, s'') \<Rightarrow> (reply # replies, s'')))"

section \<open>The connection loop (internal/server/server.go)\<close>

text \<open>
  The connection is a stream of bytes that ends: reading past its end is \<open>io.EOF\<close>.
  (Read deadlines are not modelled.) A read returns a value or an error, or the
  goroutine panics; each comes with the bytes left in the reader.
\<close>

datatype ('e, 'a) outcome = Value 'a | Failure 'e | Panic

text \<open>
  The errors of \<open>readBulkString\<close> and \<open>readRESPArray\<close>, one constructor for each place
  that returns one; their message texts are not modelled. Only \<open>EOF\<close> is the bare
  \<open>io.EOF\<close>: every other error of \<open>readRESPArray\<close> is a fresh or wrapping error value,
  which \<open>err == io.EOF\<close> does not match.
\<close>

datatype BulkError =
  BulkEOF | ExpectedBulkString char | BulkLengthRead | InvalidBulkLength string
  | EmptyTerminatorRead | BulkDataRead | BulkTerminatorRead

datatype ReadError =
  EOF | ExpectedArray char | ArrayLengthRead | InvalidArrayLength string
  | BulkStringError nat BulkError

text \<open>
  \<open>reader.ReadString('\n')\<close>: the bytes up to and including the first newline; without
  a newline everything is consumed and the error is not nil.
\<close>

definition ReadString :: "string \<Rightarrow> string option \<times> string" where
  "ReadString stream =
     (if newline \<in> set stream
      then (Some (takeWhile (\<lambda>c. c \<noteq> newline) stream @ [newline]),
            tl (dropWhile (\<lambda>c. c \<noteq> newline) stream))
      else (None, []))"

text \<open>
  \<open>strings.TrimSpace\<close> removes the leading and the trailing white space of the
  string, decoding it as UTF-8: the characters with Unicode's White_Space property,
  listed here by their encodings. A byte sequence that is not one of these encodings
  (invalid UTF-8 included) is not white space. \<open>trimRunes\<close> removes leading runes;
  the trailing ones are the leading ones of the reversed string.
\<close>

definition spaceRunes :: "string list" where
  "spaceRunes =
     [[CHR 0x09], [CHR 0x0A], [CHR 0x0B], [CHR 0x0C], [CHR 0x0D], [CHR 0x20],
      [CHR 0xC2, CHR 0x85], [CHR 0xC2, CHR 0xA0], [CHR 0xE1, CHR 0x9A, CHR 0x80],
      [CHR 0xE2, CHR 0x80, CHR 0x80], [CHR 0xE2, CHR 0x80, CHR 0x81],
      [CHR 0xE2, CHR 0x80, CHR 0x82], [CHR 0xE2, CHR 0x80, CHR 0x83],
      [CHR 0xE2, CHR 0x80, CHR 0x84], [CHR 0xE2, CHR 0x80, CHR 0x85],
      [CHR 0xE2, CHR 0x80, CHR 0x86], [CHR 0xE2, CHR 0x80, CHR 0x87],
      [CHR 0xE2, CHR 0x80, CHR 0x88], [CHR 0xE2, CHR 0x80, CHR 0x89],
      [CHR 0xE2, CHR 0x80, CHR 0x8A], [CHR 0xE2, CHR 0x80, CHR 0xA8],
      [CHR 0xE2, CHR 0x80, CHR 0xA9], [CHR 0xE2, CHR 0x80, CHR 0xAF],
      [CHR 0xE2, CHR 0x81, CHR 0x9F], [CHR 0xE3, CHR 0x80, CHR 0x80]]"

fun trimRunes :: "string list \<Rightarrow> string \<Rightarrow> string" where
  "trimRunes rs [] = []"
| "trimRunes rs (c # cs) =
     (if [c] \<in> set rs then trimRunes rs cs
      else if c # take 1 cs \<in> set rs then trimRunes rs (drop 1 cs)
      else if c # take 2 cs \<in> set rs then trimRunes rs (drop 2 cs)
      else c # cs)"

definition TrimSpace :: "string \<Rightarrow> string" where
  "TrimSpace s = rev (trimRunes (map rev spaceRunes) (rev (trimRunes spaceRunes s)))"

text \<open>
  \<open>make([]T, length)\<close> for elements of \<open>elemSize\<close> bytes. It panics for a negative length
  and for a length whose bytes the runtime cannot provide: at the latest beyond its
  allocation limit (\<open>2^48\<close> bytes on 64-bit Linux), and earlier when memory runs out,
  which ends the process as well. \<open>mem\<close> is the number of bytes the runtime can provide.
\<close>

definition canMake :: "nat \<Rightarrow> int \<Rightarrow> int \<Rightarrow> bool" where
  "canMake mem elemSize len = (0 \<le> len \<and> len * elemSize \<le> int mem)"

text \<open>
  \<open>readBulkString\<close>. After the cases \<open>-1\<close> and \<open>0\<close> comes \<open>make([]byte, length)\<close>;
  \<open>io.ReadFull\<close> fails when fewer than \<open>length\<close> bytes are left, and has consumed them.
\<close>

definition readBulkString :: "nat \<Rightarrow> string \<Rightarrow> (BulkError, string) outcome \<times> string" where
  "readBulkString mem stream =
     (case stream of
        [] \<Rightarrow> (Failure BulkEOF, [])
      | typeByte # r1 \<Rightarrow>
          if typeByte \<noteq> CHR ''$'' then (Failure (ExpectedBulkString typeByte), r1)
          else (case ReadString r1 of
                  (None, r2) \<Rightarrow> (Failure BulkLengthRead, r2)
                | (Some lengthLine, r2) \<Rightarrow>
                    (let lengthStr = TrimSpace lengthLine
                     in (case Atoi lengthStr of
                           None \<Rightarrow> (Failure (InvalidBulkLength lengthStr), r2)
                         | Some len \<Rightarrow>
                             if len = - 1 then (Value [], r2)
                             else if len = 0 then
                               (case ReadString r2 of
                                  (None, r3) \<Rightarrow> (Failure EmptyTerminatorRead, r3)
                                | (Some t, r3) \<Rightarrow> (Value [], r3))
                             else if \<not> canMake mem 1 len then (Panic, r2)
                             else if length r2 < nat len then (Failure BulkDataRead, [])
                             else (case ReadString (drop (nat len) r2) of
                                     (None, r3) \<Rightarrow> (Failure BulkTerminatorRead, r3)
                                   | (Some t, r3) \<Rightarrow> (Value (take (nat len) r2), r3))))))"

text \<open>The loop of \<open>readRESPArray\<close>: \<open>n\<close> more bulk strings, the next one has index \<open>i\<close>.\<close>

fun readBulkStrings ::
  "nat \<Rightarrow> nat \<Rightarrow> nat \<Rightarrow> string \<Rightarrow> (ReadError, string list) outcome \<times> string"
where
  "readBulkStrings mem 0 i stream = (Value [], stream)"
| "readBulkStrings mem (Suc n) i stream =
     (case readBulkString mem stream of
        (Failure e, r) \<Rightarrow> (Failure (BulkStringError i e), r)
      | (Panic, r) \<Rightarrow> (Panic, r)
      | (Value bulkString, r) \<Rightarrow>
          (case readBulkStrings mem n (Suc i) r of
             (Value result, r') \<Rightarrow> (Value (bulkString # result), r')
           | (Failure e, r') \<Rightarrow> (Failure e, r')
           | (Panic, r') \<Rightarrow> (Panic, r')))"

text \<open>
  \<open>readRESPArray\<close>. For a positive length comes \<open>make([]string, length)\<close>, whose
  elements are string headers of 16 bytes.
\<close>

definition readRESPArray :: "nat \<Rightarrow> string \<Rightarrow> (ReadError, string list) outcome \<times> string" where
  "readRESPArray mem stream =
     (case stream of
        [] \<Rightarrow> (Failure EOF, [])
      | typeByte # r1 \<Rightarrow>
          if typeByte \<noteq> CHR ''*'' then (Failure (ExpectedArray typeByte), r1)
          else (case ReadString r1 of
                  (None, r2) \<Rightarrow> (Failure ArrayLengthRead, r2)
                | (Some lengthLine, r2) \<Rightarrow>
                    (let lengthStr = TrimSpace lengthLine
                     in (case Atoi lengthStr of
                           None \<Rightarrow> (Failure (InvalidArrayLength lengthStr), r2)
                         | Some len \<Rightarrow>
                             if len \<le> 0 then (Value [], r2)
                             else if \<not> canMake mem 16 len then (Panic, r2)
                             else readBulkStrings mem (nat len) 0 r2))))"

text \<open>
  What the connection loop writes to the client: a serialized response, or
  \<open>WriteError("ERR " + err.Error())\<close> for a read error. The loop ends when the read
  returns \<open>io.EOF\<close> (the deferred \<open>conn.Close()\<close>), or when a read panics, which ends the
  process. In its \<open>i\<close>-th iteration the loop finds the instant, the key order and the
  memory that the runtime can provide in \<open>env i\<close>.
\<close>

datatype Written = WriteResponse RESPValue | WriteReadError ReadError

datatype ConnEnd = Closed | Crashed

definition written :: "Written \<Rightarrow> ConnEnd \<times> Written list \<times> Server \<Rightarrow> ConnEnd \<times> Written list \<times> Server" where
  "written w r = (case r of (e, ws, s) \<Rightarrow> (e, w # ws, s))"

function handleConnection ::
  "(string \<Rightarrow> string) \<Rightarrow> (nat \<Rightarrow> Time \<times> string list \<times> nat) \<Rightarrow> nat \<Rightarrow> Server \<Rightarrow> string \<Rightarrow>
   ConnEnd \<times> Written list \<times> Server"
where
  "handleConnection unicodeUpper env i s stream =
     (case readRESPArray (snd (snd (env i))) stream of
        (Panic, r) \<Rightarrow> (Crashed, [], s)
      | (Failure err, r) \<Rightarrow>
          if err = EOF then (Closed, [], s)
          else written (WriteReadError err) (handleConnection unicodeUpper env (Suc i) s r)
      | (Value cmd, r) \<Rightarrow>
          if cmd = [] then
            written (WriteResponse (errorValue ''ERR empty command''))
              (handleConnection unicodeUpper env (Suc i) s r)
          else (case executeCommand unicodeUpper (fst (env i)) (fst (snd (env i))) s
                       (request cmd) of
                  (response, s') \<Rightarrow>
                    written (WriteResponse response)
                      (handleConnection unicodeUpper env (Suc i) s' r)))"
  by pat_completeness auto
termination
proof (relation "measure (\<lambda>(unicodeUpper, env, i, s, stream). length stream)")
  have RS: "\<And>st l r. ReadString st = (l, r) \<Longrightarrow> length r \<le> length st"
  proof -
    fix st :: string and l r
    assume a: "ReadString st = (l, r)"
    have "length (dropWhile (\<lambda>c. c \<noteq> newline) st) \<le> length st"
      by (rule length_dropWhile_le)
    with a show "length r \<le> length st"
      by (auto simp: ReadString_def split: if_splits)
  qed
  have B: "\<And>mem st x r. readBulkString mem st = (x, r) \<Longrightarrow> length r \<le> length st"
  proof -
    fix mem and st :: string and x r
    assume a: "readBulkString mem st = (x, r)"
    show "length r \<le> length st"
    proof (cases st)
      case Nil
      with a show ?thesis by (simp add: readBulkString_def)
    next
      case (Cons c r1)
      have d: "\<And>l n r2 r3. ReadString (drop n r2) = (l, r3) \<Longrightarrow> length r3 \<le> length r2"
        using RS by fastforce
      from a Cons show ?thesis
        by (auto simp: readBulkString_def Let_def split: if_splits prod.splits option.splits
            dest!: RS d)
    qed
  qed
  have BS: "\<And>mem n i st x r. readBulkStrings mem n i st = (x, r) \<Longrightarrow> length r \<le> length st"
  proof -
    fix mem n i st x r
    show "readBulkStrings mem n i st = (x, r) \<Longrightarrow> length r \<le> length st"
    proof (induction n arbitrary: i st x r)
      case 0
      then show ?case by simp
    next
      case (Suc n)
      then show ?case
        by (auto split: prod.splits outcome.splits dest!: B) fastforce+
    qed
  qed
  have A: "\<And>mem st x r. readRESPArray mem st = (x, r) \<Longrightarrow> x \<noteq> Failure EOF \<Longrightarrow>
    length r < length st"
  proof -
    fix mem and st :: string and x r
    assume a: "readRESPArray mem st = (x, r)" and b: "x \<noteq> Failure EOF"
    show "length r < length st"
    proof (cases st)
      case Nil
      with a b show ?thesis by (simp add: readRESPArray_def)
    next
      case (Cons c r1)
      from a Cons show ?thesis
        by (auto simp: readRESPArray_def Let_def split: if_splits prod.splits option.splits
            dest!: RS BS)
    qed
  qed
  show "wf (measure (\<lambda>(unicodeUpper, env, i, s, stream). length stream))" by simp
  show "\<And>unicodeUpper env i s stream x r err.
     (x, r) = readRESPArray (snd (snd (env i))) stream \<Longrightarrow> x = Failure err \<Longrightarrow> err \<noteq> EOF \<Longrightarrow>
     ((unicodeUpper, env, Suc i, s, r), (unicodeUpper, env, i, s, stream))
       \<in> measure (\<lambda>(unicodeUpper, env, i, s, stream). length stream)"
    using A by (metis (mono_tags, lifting) case_prod_conv in_measure outcome.inject(2))
  show "\<And>unicodeUpper env i s stream x r cmd.
     (x, r) = readRESPArray (snd (snd (env i))) stream \<Longrightarrow> x = Value cmd \<Longrightarrow> cmd = [] \<Longrightarrow>
     ((unicodeUpper, env, Suc i, s, r), (unicodeUpper, env, i, s, stream))
       \<in> measure (\<lambda>(unicodeUpper, env, i, s, stream). length stream)"
    using A by (metis (mono_tags, lifting) case_prod_conv in_measure outcome.distinct(1))
  show "\<And>unicodeUpper env i s stream x r cmd xa response s'.
     (x, r) = readRESPArray (snd (snd (env i))) stream \<Longrightarrow> x = Value cmd \<Longrightarrow> cmd \<noteq> [] \<Longrightarrow>
     (response, s') = xa \<Longrightarrow>
     ((unicodeUpper, env, Suc i, s', r), (unicodeUpper, env, i, s, stream))
       \<in> measure (\<lambda>(unicodeUpper, env, i, s, stream). length stream)"
    using A by (metis (mono_tags, lifting) case_prod_conv in_measure outcome.distinct(1))
qed

declare handleConnection.simps [simp del]

text \<open>
  The loading part of \<open>Start\<close>: the snapshot, then the log; both errors only print a
  warning. \<open>order\<close> is the order in which \<open>LoadRDB\<close> visits the keys of the decoded map.
\<close>

definition StartLoad :: "string list \<Rightarrow> Server \<Rightarrow> Server" where
  "StartLoad order s =
     (case LoadRDB order s of
        (err1, s1) \<Rightarrow> (case LoadAOF s1 of (err2, printed, s2) \<Rightarrow> s2))"

section \<open>Statement-side definitions and example states\<close>

text \<open>A database in which the key \<open>k\<close> holds \<open>41\<close> and expires 100 seconds after instant 0.\<close>

definition ttlDb :: Database where
  "ttlDb = snd (Expire 0 (Set NewDatabase ''k'' ''41'') ''k'' 100)"

text \<open>
  A database in which the key \<open>k\<close> holds \<open>old\<close> and expired one second after
  instant 0, with the key not yet purged.
\<close>

definition staleDb :: Database where
  "staleDb = snd (Expire 0 (Set NewDatabase ''k'' ''old'') ''k'' 1)"

text \<open>Databases in which \<open>k\<close> holds the largest and the smallest \<open>int64\<close>.\<close>

definition maxDb :: Database where
  "maxDb = Set NewDatabase ''k'' ''9223372036854775807''"

definition minDb :: Database where
  "minDb = Set NewDatabase ''k'' ''-9223372036854775808''"

text \<open>The content of the log file, empty when the file does not exist.\<close>

definition aofContent :: "Server \<Rightarrow> string" where
  "aofContent s = (case aofFile s of None \<Rightarrow> [] | Some content \<Rightarrow> content)"

text \<open>
  The bytes by which one request is expected to extend the log: a line with the record
  when the upper-cased verb is a write command, nothing otherwise. This is written from
  the statement about the log that is proved of \<open>executeCommand\<close> below, not from the
  code.
\<close>

definition walRecord :: "(string \<Rightarrow> string) \<Rightarrow> string list \<Rightarrow> string" where
  "walRecord unicodeUpper parts =
     (case parts of
        [] \<Rightarrow> []
      | verb # args \<Rightarrow>
          if ToUpper unicodeUpper verb
               \<in> {''SET'', ''DEL'', ''EXPIRE'', ''HSET'', ''HDEL'', ''INCR'', ''DECR''}
          then cmdStr (ToUpper unicodeUpper verb) args @ [newline]
          else [])"

text \<open>
  In the examples below every string is ASCII, so \<open>ToUpper\<close> never reaches
  \<open>Map(unicode.ToUpper, s)\<close>; \<open>unusedUpper\<close> stands in its place. \<open>maxAlloc\<close> is the
  allocation limit of the runtime on 64-bit Linux.
\<close>

definition unusedUpper :: "string \<Rightarrow> string" where
  "unusedUpper s = s"

definition maxAlloc :: nat where
  "maxAlloc = 281474976710656"

text \<open>
  The verb \<open>set\<close> written with U+017F (LATIN SMALL LETTER LONG S), in UTF-8, and a mapping
  that agrees with \<open>Map(unicode.ToUpper, s)\<close> on it: the upper case of U+017F is \<open>S\<close>.
\<close>

definition longSet :: string where
  "longSet = [CHR 0xC5, CHR 0xBF, CHR ''e'', CHR ''t'']"

definition longSUpper :: "string \<Rightarrow> string" where
  "longSUpper s = (if s = longSet then ''SET'' else s)"

text \<open>A server started on an empty disk that has executed \<open>SET a 1\<close>.\<close>

definition liveServer :: Server where
  "liveServer =
     snd (executeAll unusedUpper (NewServer None None) [(0, [], [''SET'', ''a'', ''1''])])"

text \<open>The key-value map stored in \<open>dump.rdb\<close>, empty when the file does not exist.\<close>

definition snapshotData :: "Server \<Rightarrow> (string \<rightharpoonup> GobVal)" where
  "snapshotData s = (case rdbFile s of None \<Rightarrow> Map.empty | Some file \<Rightarrow> rdbData file)"

text \<open>
  The key space expected after a snapshot has been saved and loaded: the keys that hold
  a string, each with the value \<open>Set\<close> stores for that string. This is written from
  the statement proved of \<open>SaveRDB\<close> and \<open>LoadRDB\<close> below, not from the code.
\<close>

definition restored :: "Database \<Rightarrow> (string \<rightharpoonup> Value)" where
  "restored base =
     (\<lambda>key. case data base key of
               None \<Rightarrow> None
             | Some val \<Rightarrow> if Type val = StringType then Some (stringValue (StrVal val)) else None)"

text \<open>Servers holding one hash, one string with an expiry, and two strings without.\<close>

definition hashServer :: Server where
  "hashServer = (NewServer None None)\<lparr>db := HSet NewDatabase ''h'' ''f'' ''v''\<rparr>"

definition ttlServer :: Server where
  "ttlServer = (NewServer None None)\<lparr>db := ttlDb\<rparr>"

definition stringServer :: Server where
  "stringServer = (NewServer None None)\<lparr>db := Set (Set NewDatabase ''a'' ''1'') ''b'' ''x y''\<rparr>"

text \<open>
  Frames as a client sends them, and an environment that always gives instant 0, no
  key order and \<open>maxAlloc\<close> bytes of memory.
\<close>

definition crlf :: string where
  "crlf = [CHR 0x0D, CHR 0x0A]"

definition setFrame :: string where
  "setFrame = ''*3'' @ crlf @ ''$3'' @ crlf @ ''SET'' @ crlf @ ''$1'' @ crlf @ ''a'' @ crlf
     @ ''$1'' @ crlf @ ''1'' @ crlf"

definition pingFrame :: string where
  "pingFrame = ''*1'' @ crlf @ ''$4'' @ crlf @ ''PING'' @ crlf"

definition atZero :: "nat \<Rightarrow> Time \<times> string list \<times> nat" where
  "atZero i = (0, [], maxAlloc)"

text \<open>A frame that announces one bulk string of length -5.\<close>

definition negativeFrame :: string where
  "negativeFrame = ''*1'' @ crlf @ ''$-5'' @ crlf"

text \<open>
  A database in which the key \<open>k\<close> expires 9223372036 seconds after instant 0, the
  longest time that \<open>EXPIRE\<close> can install.
\<close>

definition longDb :: Database where
  "longDb = snd (Expire 0 (Set NewDatabase ''k'' ''v'') ''k'' 9223372036)"


section \<open>Auxiliary facts\<close>

lemma wrap64_id: "- (2 ^ 63) \<le> x \<Longrightarrow> x < 2 ^ 63 \<Longrightarrow> wrap64 x = x"
  by (simp add: wrap64_def)

lemma ilog2_bounds: "0 < n \<Longrightarrow> 2 ^ ilog2 n \<le> n \<and> n < 2 ^ Suc (ilog2 n)"
proof (induction n rule: ilog2.induct)
  case (1 n)
  show ?case
  proof (cases "n < 2")
    case True
    with 1 show ?thesis by (simp add: ilog2.simps)
  next
    case False
    then have "0 < n div 2" by simp
    with 1 False have "2 ^ ilog2 (n div 2) \<le> n div 2 \<and> n div 2 < 2 ^ Suc (ilog2 (n div 2))"
      by simp
    with False show ?thesis
      by (subst (1 2) ilog2.simps) auto
  qed
qed

lemma roundEven_floor: "\<lfloor>m\<rfloor> \<le> roundEven m"
  by (simp add: roundEven_def Let_def)

lemma roundEven_ge: "of_int k \<le> m \<Longrightarrow> k \<le> roundEven m"
  using roundEven_floor [of m] by (meson le_floor_iff order_trans)

lemma roundEven_upper: "of_int (roundEven m) \<le> m + 1 / 2"
  unfolding roundEven_def Let_def
  by (auto simp: not_less) linarith+

lemma roundEven_of_int: "roundEven (of_int k) = k"
  by (simp add: roundEven_def)

lemma roundEven_le: "m \<le> of_int K \<Longrightarrow> roundEven m \<le> K"
proof -
  assume a: "m \<le> of_int K"
  have u: "roundEven m \<le> \<lfloor>m\<rfloor> + 1"
    by (simp add: roundEven_def Let_def)
  show ?thesis
  proof (cases "\<lfloor>m\<rfloor> < K")
    case True
    with u show ?thesis by simp
  next
    case False
    with a have "m = of_int K"
      by (metis floor_less_iff le_less not_less of_int_floor_le order_trans floor_of_int)
    then show ?thesis by (simp add: roundEven_of_int)
  qed
qed

lemma roundEven_less: "m < of_int K - 1 / 2 \<Longrightarrow> roundEven m < K"
proof -
  assume "m < of_int K - 1 / 2"
  with roundEven_upper [of m] have "(of_int (roundEven m) :: rat) < of_int K" by simp
  then show ?thesis by simp
qed

lemma ilog2_int:
  assumes "1 \<le> k"
  shows "(2::int) ^ ilog2 (nat k) \<le> k" and "k < 2 ^ Suc (ilog2 (nat k))"
proof -
  from assms have n: "0 < nat k" by simp
  from ilog2_bounds [OF n] have "int (2 ^ ilog2 (nat k)) \<le> k" "k < int (2 ^ Suc (ilog2 (nat k)))"
    using assms by (simp_all add: le_nat_iff nat_less_iff)
  then show "(2::int) ^ ilog2 (nat k) \<le> k" and "k < 2 ^ Suc (ilog2 (nat k))" by simp_all
qed

lemma ulp_ge1:
  assumes "1 \<le> x"
  shows "ulp x = 2 ^ ilog2 (nat \<lfloor>x\<rfloor>) / 2 ^ 52"
    and "2 ^ ilog2 (nat \<lfloor>x\<rfloor>) \<le> x" and "x < 2 ^ Suc (ilog2 (nat \<lfloor>x\<rfloor>))"
proof -
  let ?i = "ilog2 (nat \<lfloor>x\<rfloor>)"
  from assms have f: "1 \<le> \<lfloor>x\<rfloor>" by simp
  show "ulp x = 2 ^ ?i / 2 ^ 52" using assms by (simp add: ulp_def)
  from ilog2_int [OF f] have b: "(2::int) ^ ?i \<le> \<lfloor>x\<rfloor>" "\<lfloor>x\<rfloor> + 1 \<le> 2 ^ Suc ?i" by simp_all
  from b(1) have "(of_int (2 ^ ?i) :: rat) \<le> of_int \<lfloor>x\<rfloor>" by (simp only: of_int_le_iff)
  also have "\<dots> \<le> x" by (rule of_int_floor_le)
  finally show "2 ^ ?i \<le> x" by simp
  have "x < of_int (\<lfloor>x\<rfloor> + 1)" by linarith
  also from b(2) have "(of_int (\<lfloor>x\<rfloor> + 1) :: rat) \<le> of_int (2 ^ Suc ?i)" by (simp only: of_int_le_iff)
  finally show "x < 2 ^ Suc ?i" by simp
qed

lemma ulp_lt1:
  assumes "0 < x" and "x < 1"
  shows "ulp x = 1 / (2 ^ Suc (ilog2 (nat (\<lceil>1 / x\<rceil> - 1))) * 2 ^ 52)"
    and "1 \<le> x * 2 ^ Suc (ilog2 (nat (\<lceil>1 / x\<rceil> - 1)))"
proof -
  let ?i = "ilog2 (nat (\<lceil>1 / x\<rceil> - 1))"
  from assms have t: "1 < 1 / x" by simp
  then have c: "1 \<le> \<lceil>1 / x\<rceil> - 1" by linarith
  show "ulp x = 1 / (2 ^ Suc ?i * 2 ^ 52)" using assms by (simp add: ulp_def)
  from ilog2_int(2) [OF c] have "\<lceil>1 / x\<rceil> \<le> 2 ^ Suc ?i" by simp
  then have l: "(of_int \<lceil>1 / x\<rceil> :: rat) \<le> of_int (2 ^ Suc ?i)" by (simp only: of_int_le_iff)
  have "1 / x \<le> of_int \<lceil>1 / x\<rceil>" by (rule le_of_int_ceiling)
  also note l
  finally have "1 / x \<le> 2 ^ Suc ?i" by simp
  with assms(1) show "1 \<le> x * 2 ^ Suc ?i"
    by (simp add: divide_le_eq mult.commute)
qed


lemma ulp_pos: "0 < x \<Longrightarrow> 0 < ulp x"
  by (simp add: ulp_def)

lemma scaled_ge: assumes "0 < x" shows "2 ^ 52 \<le> x / ulp x"
proof (cases "1 \<le> x")
  case True
  let ?i = "ilog2 (nat \<lfloor>x\<rfloor>)"
  have e: "x / ulp x = x / 2 ^ ?i * 2 ^ 52"
    by (simp add: ulp_ge1(1) [OF True])
  from ulp_ge1(2) [OF True] have "1 \<le> x / 2 ^ ?i"
    by (simp add: le_divide_eq)
  then have "1 * 2 ^ 52 \<le> x / 2 ^ ?i * (2 ^ 52 :: rat)"
    by (intro mult_right_mono) simp_all
  with e show ?thesis by simp
next
  case False
  with assms have x: "0 < x" "x < 1" by simp_all
  let ?j = "Suc (ilog2 (nat (\<lceil>1 / x\<rceil> - 1)))"
  have e: "x / ulp x = x * 2 ^ ?j * 2 ^ 52"
    by (simp add: ulp_lt1(1) [OF x])
  from ulp_lt1(2) [OF x] have "1 * 2 ^ 52 \<le> x * 2 ^ ?j * (2 ^ 52 :: rat)"
    by (intro mult_right_mono) simp_all
  with e show ?thesis by simp
qed

lemma float64_pos: assumes "0 < x" shows "0 < float64 x"
proof -
  have u: "0 < ulp x" using assms by (rule ulp_pos)
  from scaled_ge [OF assms] have "of_int 1 \<le> x / ulp x" by simp
  then have "1 \<le> roundEven (x / ulp x)" by (rule roundEven_ge)
  then have "(0::rat) < of_int (roundEven (x / ulp x))" by simp
  with u assms show ?thesis by (simp add: float64_def)
qed

lemma float64_nonpos: "x \<le> 0 \<Longrightarrow> float64 x \<le> 0"
  using float64_pos [of "- x"] by (auto simp: float64_def)

lemma float64_upper: assumes "0 < x" shows "float64 x \<le> x + ulp x / 2"
proof -
  have u: "0 < ulp x" using assms by (rule ulp_pos)
  have "of_int (roundEven (x / ulp x)) * ulp x \<le> (x / ulp x + 1 / 2) * ulp x"
    using roundEven_upper [of "x / ulp x"] u by (intro mult_right_mono) simp_all
  also have "\<dots> = x + ulp x / 2" using u by (simp add: field_simps)
  finally show ?thesis using assms by (simp add: float64_def)
qed


lemma ulp_lt1_le: assumes "0 < x" and "x < 1" shows "ulp x \<le> 1 / 2 ^ 53"
proof -
  let ?i = "ilog2 (nat (\<lceil>1 / x\<rceil> - 1))"
  have "(1::rat) \<le> 2 ^ ?i" by simp
  then have "(2::rat) ^ 53 \<le> 2 ^ Suc ?i * 2 ^ 52" by simp
  then have "1 / (2 ^ Suc ?i * 2 ^ 52) \<le> 1 / (2::rat) ^ 53"
    by (intro divide_left_mono) simp_all
  then show ?thesis by (simp only: ulp_lt1(1) [OF assms])
qed

lemma float64_fraction:
  assumes "0 < x" and "x \<le> 999999999 / 1000000000"
  shows "0 < float64 x" and "float64 x < 1 - 1 / 2 ^ 30"
proof -
  show "0 < float64 x" using assms(1) by (rule float64_pos)
  from assms have x1: "x < 1" by simp
  from float64_upper [OF assms(1)] ulp_lt1_le [OF assms(1) x1]
  have "float64 x \<le> x + 1 / 2 ^ 53 / 2" by simp
  with assms(2) show "float64 x < 1 - 1 / 2 ^ 30" by simp
qed

lemma float64_small:
  assumes "0 < q" and "q < 1 - 1 / 2 ^ 30"
  shows "0 < float64 q" and "float64 q < 1"
proof -
  show "0 < float64 q" using assms(1) by (rule float64_pos)
  from assms have q1: "q < 1" by simp
  from float64_upper [OF assms(1)] ulp_lt1_le [OF assms(1) q1]
  have "float64 q \<le> q + 1 / 2 ^ 53 / 2" by simp
  with assms(2) show "float64 q < 1" by simp
qed

lemma float64_int_plus_fraction:
  assumes "1 \<le> s" and "s < 2 ^ 52" and "0 \<le> q" and "q < 1"
  shows "of_int s \<le> float64 (of_int s + q)"
    and "float64 (of_int s + q) \<le> of_int s + 1"
    and "s < 2 ^ 24 \<Longrightarrow> q < 1 - 1 / 2 ^ 30 \<Longrightarrow> float64 (of_int s + q) < of_int s + 1"
proof -
  let ?y = "of_int s + q"
  let ?i = "ilog2 (nat s)"
  from assms have fl: "\<lfloor>?y\<rfloor> = s" by linarith
  from assms have y1: "1 \<le> ?y" by simp
  then have y0: "0 < ?y" by simp
  note b = ilog2_int [OF assms(1)]
  from b(1) assms(2) have i52: "(2::int) ^ ?i < 2 ^ 52" by simp
  have i: "?i < 52"
    by (rule power_less_imp_less_exp [where a = "2::int"], simp, fact i52)
  then have p: "(2::rat) ^ 52 = 2 ^ ?i * 2 ^ (52 - ?i)"
    by (simp add: power_add [symmetric])
  have "ulp ?y = 2 ^ ?i / 2 ^ 52"
    by (simp only: ulp_ge1(1) [OF y1] fl)
  also have "\<dots> = 2 ^ ?i / (2 ^ ?i * 2 ^ (52 - ?i))"
    by (simp only: p)
  also have "\<dots> = 1 / 2 ^ (52 - ?i)"
    by simp
  finally have u: "ulp ?y = 1 / 2 ^ (52 - ?i)" .
  let ?N = "(2::int) ^ (52 - ?i)"
  have sc: "?y / ulp ?y = ?y * of_int ?N" by (simp add: u)
  have fv: "float64 ?y = of_int (roundEven (?y * of_int ?N)) / of_int ?N"
    using y0 by (simp add: float64_def sc) (simp add: u)
  have N0: "(0::rat) < of_int ?N" by simp
  have "of_int (s * ?N) \<le> ?y * of_int ?N" using assms(3) by simp
  then have "s * ?N \<le> roundEven (?y * of_int ?N)" by (rule roundEven_ge)
  then have "(of_int (s * ?N) :: rat) \<le> of_int (roundEven (?y * of_int ?N))"
    by (simp only: of_int_le_iff)
  then have "(of_int s :: rat) * of_int ?N \<le> of_int (roundEven (?y * of_int ?N))" by simp
  with N0 show "of_int s \<le> float64 ?y"
    by (simp only: fv le_divide_eq if_True)
  have "?y * of_int ?N \<le> of_int ((s + 1) * ?N)" using assms(4) by simp
  then have "roundEven (?y * of_int ?N) \<le> (s + 1) * ?N" by (rule roundEven_le)
  then have "(of_int (roundEven (?y * of_int ?N)) :: rat) \<le> of_int ((s + 1) * ?N)"
    by (simp only: of_int_le_iff)
  then have "(of_int (roundEven (?y * of_int ?N)) :: rat) \<le> (of_int s + 1) * of_int ?N" by simp
  with N0 show "float64 ?y \<le> of_int s + 1"
    by (simp only: fv divide_le_eq if_True)
  show "float64 ?y < of_int s + 1" if s24: "s < 2 ^ 24" and q30: "q < 1 - 1 / 2 ^ 30"
  proof -
    from b(1) s24 have i24: "(2::int) ^ ?i < 2 ^ 24" by simp
    have "?i < 24"
      by (rule power_less_imp_less_exp [where a = "2::int"], simp, fact i24)
    then have "29 \<le> 52 - ?i" by simp
    then have "(2::int) ^ 29 \<le> ?N" by (intro power_increasing) simp_all
    then have "(of_int (2 ^ 29) :: rat) \<le> of_int ?N" by (simp only: of_int_le_iff)
    then have N29: "(2::rat) ^ 29 \<le> of_int ?N" by simp
    have "1 / 2 = (1 / 2 ^ 30) * (2::rat) ^ 29" by simp
    also have "\<dots> \<le> (1 / 2 ^ 30) * of_int ?N"
      using N29 by (intro mult_left_mono) simp_all
    finally have h: "1 / 2 \<le> (1 / 2 ^ 30) * (of_int ?N :: rat)" .
    have "?y * of_int ?N < (of_int s + 1 - 1 / 2 ^ 30) * of_int ?N"
      using q30 N0 by (intro mult_strict_right_mono) simp_all
    also have "\<dots> = of_int ((s + 1) * ?N) - (1 / 2 ^ 30) * of_int ?N"
      by (simp add: algebra_simps)
    also have "\<dots> \<le> of_int ((s + 1) * ?N) - 1 / 2" using h by simp
    finally have "roundEven (?y * of_int ?N) < (s + 1) * ?N" by (rule roundEven_less)
    then have "(of_int (roundEven (?y * of_int ?N)) :: rat) < of_int ((s + 1) * ?N)"
      by (simp only: of_int_less_iff)
    then have "(of_int (roundEven (?y * of_int ?N)) :: rat) < (of_int s + 1) * of_int ?N" by simp
    with N0 show ?thesis
      by (simp only: fv divide_less_eq if_True)
  qed
qed


lemma Seconds_nonpos: assumes "d \<le> 0" shows "Seconds d \<le> 0"
proof -
  have "0 \<le> \<bar>d\<bar> div 1000000000" "0 \<le> \<bar>d\<bar> mod 1000000000"
    by (simp_all add: pos_imp_zdiv_nonneg_iff)
  with assms have "sgn d * (\<bar>d\<bar> div 1000000000) \<le> 0" "sgn d * (\<bar>d\<bar> mod 1000000000) \<le> 0"
    by (simp_all add: mult_le_0_iff sgn_if)
  then have "(of_int (sgn d * (\<bar>d\<bar> div 1000000000)) :: rat) \<le> of_int 0"
    and "(of_int (sgn d * (\<bar>d\<bar> mod 1000000000)) :: rat) \<le> of_int 0"
    by (simp_all only: of_int_le_iff)
  then have a: "(of_int (sgn d * (\<bar>d\<bar> div 1000000000)) :: rat) \<le> 0"
    and b: "(of_int (sgn d * (\<bar>d\<bar> mod 1000000000)) :: rat) / 1000000000 \<le> 0"
    by (simp_all only: of_int_0 divide_le_0_iff) simp_all
  from b have "float64 (of_int (sgn d * (\<bar>d\<bar> mod 1000000000)) / 1000000000) \<le> 0"
    by (rule float64_nonpos)
  with a show ?thesis
    unfolding Seconds_def Let_def by (intro float64_nonpos) simp
qed

lemma Seconds_positive:
  assumes "0 < d" and "d < 2 ^ 63"
  shows "0 < Seconds d"
    and "d div 1000000000 \<le> \<lfloor>Seconds d\<rfloor>" and "\<lfloor>Seconds d\<rfloor> \<le> d div 1000000000 + 1"
    and "d < 2 ^ 24 * 1000000000 \<Longrightarrow> \<lfloor>Seconds d\<rfloor> = d div 1000000000"
proof -
  let ?s = "d div 1000000000" and ?n = "d mod 1000000000"
  let ?q = "float64 (of_int ?n / 1000000000)"
  from assms(1) have S: "Seconds d = float64 (of_int ?s + ?q)"
    by (simp add: Seconds_def)
  have n: "0 \<le> ?n" "?n \<le> 999999999" by simp_all
  from assms(1) have s0: "0 \<le> ?s" by (simp add: pos_imp_zdiv_nonneg_iff)
  have dv: "d = ?s * 1000000000 + ?n" by simp
  with n(1) have "?s * 1000000000 \<le> d" by linarith
  with assms(2) have s52: "?s < 2 ^ 52" by simp
  note s = s0 s52
  have q: "0 \<le> ?q \<and> ?q < 1 - 1 / 2 ^ 30 \<and> (0 < ?n \<longrightarrow> 0 < ?q)"
  proof (cases "?n = 0")
    case True
    then show ?thesis by (simp add: float64_def)
  next
    case False
    with n have "(0::rat) < of_int ?n / 1000000000" by simp
    moreover from n(2) have "(of_int ?n :: rat) \<le> of_int 999999999" by (simp only: of_int_le_iff)
    then have "(of_int ?n :: rat) / 1000000000 \<le> 999999999 / 1000000000" by simp
    ultimately show ?thesis
      using float64_fraction [of "of_int ?n / 1000000000"] by simp
  qed
  then have q1: "?q < 1" by simp
  have "0 < Seconds d \<and> ?s \<le> \<lfloor>Seconds d\<rfloor> \<and> \<lfloor>Seconds d\<rfloor> < ?s + 1 \<or>
        0 < Seconds d \<and> 2 ^ 24 \<le> ?s \<and> ?s \<le> \<lfloor>Seconds d\<rfloor> \<and> \<lfloor>Seconds d\<rfloor> \<le> ?s + 1"
  proof (cases "?s = 0")
    case True
    with dv assms(1) have "0 < ?n" by simp
    with q have "0 < ?q" "?q < 1 - 1 / 2 ^ 30" by simp_all
    from float64_small [OF this] True S show ?thesis by (simp add: floor_eq_iff)
  next
    case False
    with s have s1: "1 \<le> ?s" by simp
    from q have q0: "0 \<le> ?q" by simp
    note f = float64_int_plus_fraction [OF s1 s(2) q0 q1]
    from f(1) have pos: "0 < Seconds d" using s1 unfolding S by (simp add: less_le_trans [of 0 "of_int ?s"])
    from f(1) have lo: "?s \<le> \<lfloor>Seconds d\<rfloor>" unfolding S by (simp add: le_floor_iff)
    from f(2) have "\<lfloor>Seconds d\<rfloor> \<le> \<lfloor>(of_int (?s + 1) :: rat)\<rfloor>" unfolding S
      by (intro floor_mono) simp
    then have hi: "\<lfloor>Seconds d\<rfloor> \<le> ?s + 1" by (simp only: floor_of_int)
    show ?thesis
    proof (cases "?s < 2 ^ 24")
      case True
      from f(3) [OF True] q have "float64 (of_int ?s + ?q) < of_int (?s + 1)" by simp
      then have "\<lfloor>Seconds d\<rfloor> < ?s + 1" unfolding S by (simp only: floor_less_iff)
      with pos lo show ?thesis by simp
    next
      case False
      with pos lo hi show ?thesis by simp
    qed
  qed
  then show "0 < Seconds d" and "?s \<le> \<lfloor>Seconds d\<rfloor>" and "\<lfloor>Seconds d\<rfloor> \<le> ?s + 1"
    by auto
  show "\<lfloor>Seconds d\<rfloor> = ?s" if "d < 2 ^ 24 * 1000000000"
  proof -
    from that have "?s < 2 ^ 24" by (simp add: div_less_iff_less_mult)
    with \<open>_ \<or> _\<close> show ?thesis by auto
  qed
qed


lemma ilog2_eq: "2 ^ k \<le> n \<Longrightarrow> n < 2 ^ Suc k \<Longrightarrow> ilog2 n = k"
proof -
  assume a: "2 ^ k \<le> n" "n < 2 ^ Suc k"
  then have n: "0 < n" by (metis not_gr_zero not_less zero_less_numeral zero_less_power)
  note b = ilog2_bounds [OF n]
  from a(1) b have "(2::nat) ^ k < 2 ^ Suc (ilog2 n)" by simp
  then have "k < Suc (ilog2 n)" by (rule power_less_imp_less_exp [rotated]) simp
  moreover from a(2) b have "(2::nat) ^ ilog2 n < 2 ^ Suc k" by simp
  then have "ilog2 n < Suc k" by (rule power_less_imp_less_exp [rotated]) simp
  ultimately show ?thesis by simp
qed

lemma floor_rat_numeral: "\<lfloor>numeral a / numeral b :: rat\<rfloor> = numeral a div numeral b"
  using floor_divide_of_int_eq [of "numeral a" "numeral b", where ?'a = rat] by simp

lemma ceiling_rat_numeral: "\<lceil>numeral a / numeral b :: rat\<rceil> = - (- numeral a div numeral b)"
  using ceiling_divide_eq_div [of "numeral a" "numeral b", where ?'a = rat] by simp

lemma float64_pos_eq: "0 < x \<Longrightarrow> float64 x = of_int (roundEven (x / ulp x)) * ulp x"
  by (simp add: float64_def)

lemma q_example: "float64 (999999500 / 1000000000) = 9007194751141365 / 2 ^ 53"
proof -
  let ?x = "999999500 / 1000000000 :: rat"
  have c: "\<lceil>1 / ?x\<rceil> = 2" by (rule ceiling_unique) simp_all
  have u: "ulp ?x = 1 / 2 ^ 53"
    unfolding ulp_def c by (simp add: ilog2.simps)
  have sc: "?x / (1 / 2 ^ 53) = 140737417986583822336 / 15625" by simp
  have r: "roundEven (140737417986583822336 / 15625) = 9007194751141365"
    by (simp add: roundEven_def Let_def floor_rat_numeral)
  have "float64 ?x = of_int (roundEven (?x / ulp ?x)) * ulp ?x"
    by (rule float64_pos_eq) simp
  also have "\<dots> = 9007194751141365 / 2 ^ 53"
    unfolding u sc r by simp
  finally show ?thesis .
qed

lemma Seconds_example: "Seconds 9223372035999999500 = 9223372036"
proof -
  let ?y = "9223372035 + 9007194751141365 / 2 ^ 53 :: rat"
  have f: "\<lfloor>?y\<rfloor> = 9223372035" by (rule floor_unique) simp_all
  have i: "ilog2 9223372035 = 33" by (rule ilog2_eq) simp_all
  have u: "ulp ?y = 1 / 2 ^ 19"
    unfolding ulp_def f by (simp add: i)
  have sc: "?y / (1 / 2 ^ 19) = 83076749728858101532100085 / 17179869184" by simp
  have r: "roundEven (83076749728858101532100085 / 17179869184) = 4835703278010368"
    by (simp add: roundEven_def Let_def floor_rat_numeral)
  have "Seconds 9223372035999999500 = float64 (9223372035 + float64 (999999500 / 1000000000))"
    by (simp add: Seconds_def)
  also have "\<dots> = float64 ?y" by (simp only: q_example)
  also have "\<dots> = of_int (roundEven (?y / ulp ?y)) * ulp ?y"
    by (rule float64_pos_eq) simp
  also have "\<dots> = 9223372036"
    unfolding u sc r by simp
  finally show ?thesis .
qed

lemma TTL_due:
  assumes "data d key = Some val" and "expiry d key = Some e" and "e \<le> now"
  shows "TTL now d key = (- 2, purge d key)"
proof -
  from assms(3) have "Sub e now \<le> 0" by (simp add: Sub_def)
  then have "Seconds (Sub e now) \<le> 0" by (rule Seconds_nonpos)
  with assms(1,2) show ?thesis by (simp add: TTL_def)
qed

lemma TTL_live_bounds:
  assumes "data d key = Some val" and "expiry d key = Some e" and "now < e"
  shows "snd (TTL now d key) = d"
    and "Sub e now div 1000000000 \<le> fst (TTL now d key)"
    and "fst (TTL now d key) \<le> Sub e now div 1000000000 + 1"
proof -
  from assms(3) have p: "0 < Sub e now" "Sub e now < 2 ^ 63" by (simp_all add: Sub_def)
  note s = Seconds_positive [OF p]
  from s(1) assms(1,2) have t: "TTL now d key = (\<lfloor>Seconds (Sub e now)\<rfloor>, d)"
    by (simp add: TTL_def toInt64_def)
  from t show "snd (TTL now d key) = d" by simp
  from t s(2) show "Sub e now div 1000000000 \<le> fst (TTL now d key)" by simp
  from t s(3) show "fst (TTL now d key) \<le> Sub e now div 1000000000 + 1" by simp
qed

lemma TTL_live:
  assumes "data d key = Some val" and "expiry d key = Some e" and "now < e"
    and "e - now < 2 ^ 24 * 1000000000"
  shows "TTL now d key = ((e - now) div 1000000000, d)"
proof -
  from assms(3,4) have e: "Sub e now = e - now" by (simp add: Sub_def)
  from assms(3,4) have p: "0 < e - now" "e - now < 2 ^ 63" by simp_all
  note s = Seconds_positive [OF p]
  from s(1) s(4) [OF assms(4)] assms(1,2) show ?thesis
    by (simp add: TTL_def toInt64_def e)
qed

lemma longDb_k:
  "data longDb ''k'' = Some (stringValue ''v'')" "expiry longDb ''k'' = Some 9223372036000000000"
  by (simp_all add: longDb_def Expire_def Set_def NewDatabase_def wrap64_def)

text \<open>
  With 9223372035.9999995 seconds left the sum in \<open>Seconds\<close> rounds up to the next whole
  number, and \<open>TTL\<close> returns one second more than remain.
\<close>

lemma TTL_rounds_up_example: "fst (TTL 500 longDb ''k'') = 9223372036"
proof -
  have "Sub 9223372036000000000 500 = 9223372035999999500" by (simp add: Sub_def)
  then show ?thesis
    by (simp add: TTL_def longDb_k Seconds_example toInt64_def)
qed





lemma FormatInt_40: "FormatInt 40 = ''40''"
  by code_simp

lemma FormatInt_42: "FormatInt 42 = ''42''"
  by code_simp


lemma ParseInt_41: "ParseInt ''41'' = Some 41"
  by code_simp

lemma foldl_digits_nonneg:
  "0 \<le> a \<Longrightarrow> list_all isDigit ds \<Longrightarrow>
   0 \<le> foldl (\<lambda>a c. 10 * a + (int (of_char c) - 48)) a ds"
  by (induction ds arbitrary: a) (auto simp: isDigit_def)

lemma digitsVal_nonneg: "list_all isDigit ds \<Longrightarrow> 0 \<le> digitsVal ds"
  unfolding digitsVal_def by (rule foldl_digits_nonneg) simp_all

lemma digitsVal_Cons_nonneg:
  "isDigit c \<Longrightarrow> list_all isDigit cs \<Longrightarrow> 0 \<le> digitsVal (c # cs)"
  using digitsVal_nonneg [of "c # cs"] by simp

lemma ParseInt_range: "ParseInt v = Some n \<Longrightarrow> - (2 ^ 63) \<le> n \<and> n < 2 ^ 63"
  by (auto simp: ParseInt_def Let_def split: list.splits if_splits
      dest: digitsVal_nonneg digitsVal_Cons_nonneg)

lemma TTL_after_Set: "fst (TTL now' (Set d key v) key) = - 1"
  by (simp add: TTL_def Set_def)

lemma ttlDb_simps:
  "data ttlDb = [''k'' \<mapsto> stringValue ''41'']" "expiry ttlDb = [''k'' \<mapsto> 100000000000]"
  by (simp_all add: ttlDb_def Expire_def Set_def NewDatabase_def wrap64_def)

lemma incr_ttlDb: "handleIncr 5 ttlDb [''k''] = (integerValue 42, Set ttlDb ''k'' ''42'')"
  by (simp add: handleIncr_def Get_def isExpired_def ttlDb_simps stringValue_def ParseInt_41
      wrap64_def FormatInt_42)

lemma decr_ttlDb: "handleDecr 5 ttlDb [''k''] = (integerValue 40, Set ttlDb ''k'' ''40'')"
  by (simp add: handleDecr_def Get_def isExpired_def ttlDb_simps stringValue_def ParseInt_41
      wrap64_def FormatInt_40)

lemma ttlDb_k:
  "data ttlDb ''k'' = Some (stringValue ''41'')" "expiry ttlDb ''k'' = Some 100000000000"
  by (simp_all add: ttlDb_simps)


lemma TTL_ttlDb_95: "TTL 5000000000 ttlDb ''k'' = (95, ttlDb)"
  using TTL_live [OF ttlDb_k, of 5000000000] by simp

lemma char_of_digit:
  "char_of (48::nat) = CHR ''0''" "char_of (49::nat) = CHR ''1''" "char_of (50::nat) = CHR ''2''"
  "char_of (51::nat) = CHR ''3''" "char_of (52::nat) = CHR ''4''" "char_of (53::nat) = CHR ''5''"
  "char_of (54::nat) = CHR ''6''" "char_of (55::nat) = CHR ''7''" "char_of (56::nat) = CHR ''8''"
  "char_of (57::nat) = CHR ''9''"
  by code_simp+

lemma ParseInt_max: "ParseInt ''9223372036854775807'' = Some 9223372036854775807"
  by (simp add: ParseInt_def isDigit_def digitsVal_def)

lemma ParseInt_min: "ParseInt ''-9223372036854775808'' = Some (- 9223372036854775808)"
  by (simp add: ParseInt_def isDigit_def digitsVal_def)

lemma FormatInt_min: "FormatInt (- 9223372036854775808) = ''-9223372036854775808''"
  by (simp add: FormatInt_def natToDec.simps char_of_digit)

lemma FormatInt_max: "FormatInt 9223372036854775807 = ''9223372036854775807''"
  by (simp add: FormatInt_def natToDec.simps char_of_digit)

lemma Atoi_10: "Atoi ''10'' = Some 10"
  by code_simp

lemma stringValue_sel: "Type (stringValue v) = StringType" "StrVal (stringValue v) = v"
  by (simp_all add: stringValue_def)

lemma staleDb_simps:
  "data staleDb = [''k'' \<mapsto> stringValue ''old'']" "expiry staleDb = [''k'' \<mapsto> 1000000000]"
  by (simp_all add: staleDb_def Expire_def Set_def NewDatabase_def wrap64_def)

lemma maxDb_simps:
  "data maxDb ''k'' = Some (stringValue ''9223372036854775807'')" "expiry maxDb ''k'' = None"
  by (simp_all add: maxDb_def Set_def NewDatabase_def)

lemma minDb_simps:
  "data minDb ''k'' = Some (stringValue ''-9223372036854775808'')" "expiry minDb ''k'' = None"
  by (simp_all add: minDb_def Set_def NewDatabase_def)

lemma cmdStr_concat: "cmdStr command args = command @ concat (map (\<lambda>arg. CHR '' '' # arg) args)"
  unfolding cmdStr_def by (induction args arbitrary: command) simp_all

lemma takeWhile_word:
  "CHR '' '' \<notin> set x \<Longrightarrow>
   takeWhile (\<lambda>c. c \<noteq> CHR '' '') (x @ concat (map (\<lambda>arg. CHR '' '' # arg) args)) = x"
proof -
  assume a: "CHR '' '' \<notin> set x"
  then have n: "\<forall>c\<in>set x. c \<noteq> CHR '' ''" by auto
  have "takeWhile (\<lambda>c. c \<noteq> CHR '' '') (concat (map (\<lambda>arg. CHR '' '' # arg) args)) = []"
    by (cases args) simp_all
  with n show ?thesis by (simp add: takeWhile_append2)
qed

lemma word_tail_unique:
  assumes "CHR '' '' \<notin> set x" and "CHR '' '' \<notin> set y"
    and "x @ concat (map (\<lambda>arg. CHR '' '' # arg) args)
         = y @ concat (map (\<lambda>arg. CHR '' '' # arg) args')"
  shows "x = y \<and> concat (map (\<lambda>arg. CHR '' '' # arg) args)
               = concat (map (\<lambda>arg. CHR '' '' # arg) args')"
proof -
  have "x = y"
    using takeWhile_word [OF assms(1), of args] takeWhile_word [OF assms(2), of args'] assms(3)
    by simp
  with assms(3) show ?thesis by simp
qed

lemma tail_unique:
  "\<forall>a\<in>set args. CHR '' '' \<notin> set a \<Longrightarrow> \<forall>a\<in>set args'. CHR '' '' \<notin> set a \<Longrightarrow>
   concat (map (\<lambda>arg. CHR '' '' # arg) args) = concat (map (\<lambda>arg. CHR '' '' # arg) args') \<Longrightarrow>
   args = args'"
proof (induction args arbitrary: args')
  case Nil
  then show ?case by (cases args') simp_all
next
  case (Cons a args)
  show ?case
  proof (cases args')
    case Nil
    with Cons.prems show ?thesis by simp
  next
    case (Cons a' rest)
    with Cons.prems have "a @ concat (map (\<lambda>arg. CHR '' '' # arg) args)
        = a' @ concat (map (\<lambda>arg. CHR '' '' # arg) rest)"
      by simp
    moreover from Cons Cons.prems have "CHR '' '' \<notin> set a" "CHR '' '' \<notin> set a'"
      by simp_all
    ultimately have "a = a'" and "concat (map (\<lambda>arg. CHR '' '' # arg) args)
        = concat (map (\<lambda>arg. CHR '' '' # arg) rest)"
      using word_tail_unique by blast+
    moreover from Cons Cons.prems have "\<forall>a\<in>set rest. CHR '' '' \<notin> set a" by simp
    moreover from Cons.prems have "\<forall>a\<in>set args. CHR '' '' \<notin> set a" by simp
    ultimately show ?thesis
      using Cons.IH [of rest] Cons by simp
  qed
qed

lemma upperChar_verbs:
  "map upperChar ''SET'' = ''SET''" "map upperChar ''GET'' = ''GET''"
  "map upperChar ''PING'' = ''PING''" "map upperChar ''set'' = ''SET''"
  "map upperChar ''Del'' = ''DEL''" "map upperChar ''expire'' = ''EXPIRE''"
  "map upperChar ''hSet'' = ''HSET''" "map upperChar ''hdel'' = ''HDEL''"
  "map upperChar ''incr'' = ''INCR''" "map upperChar ''DECR'' = ''DECR''"
  "map upperChar ''get'' = ''GET''"
  by code_simp+

lemma ToUpper_verbs:
  "ToUpper up ''SET'' = ''SET''" "ToUpper up ''GET'' = ''GET''"
  "ToUpper up ''PING'' = ''PING''" "ToUpper up ''set'' = ''SET''"
  "ToUpper up ''Del'' = ''DEL''" "ToUpper up ''expire'' = ''EXPIRE''"
  "ToUpper up ''hSet'' = ''HSET''" "ToUpper up ''hdel'' = ''HDEL''"
  "ToUpper up ''incr'' = ''INCR''" "ToUpper up ''DECR'' = ''DECR''"
  "ToUpper up ''get'' = ''GET''"
  by (simp_all add: ToUpper_def isASCII_def upperChar_verbs del: list.map)

lemma ToUpper_SET: "ToUpper up ''SET'' = ''SET''"
  by (rule ToUpper_verbs)

lemma ToUpper_longSet: "ToUpper longSUpper longSet = ''SET''"
  by (simp add: ToUpper_def isASCII_def longSUpper_def longSet_def)

lemma request_sel: "RType (request parts) = Array" "RArray (request parts) = map bulkValue parts"
  by (simp_all add: request_def arrayValue_def)

lemma Str_bulkValue: "Str (bulkValue p) = p"
  by (simp add: bulkValue_def)

lemma map_Str_bulkValue: "map (Str \<circ> bulkValue) ps = ps"
  by (induction ps) (simp_all add: Str_bulkValue)

lemma executeAll_Cons:
  "snd (executeAll up s ((now, order, parts) # reqs)) =
   snd (executeAll up (snd (executeCommand up now order s (request parts))) reqs)"
  by (simp split: prod.splits)

lemma executeCommand_aof:
  "aofEnabled s \<Longrightarrow>
   aofContent (snd (executeCommand up now order s (request parts)))
     = aofContent s @ walRecord up parts \<and>
   aofEnabled (snd (executeCommand up now order s (request parts)))"
  by (cases parts)
    (simp_all add: executeCommand_def request_sel Str_bulkValue map_Str_bulkValue Let_def
      walRecord_def isWriteCommand_def WriteAOF_def aofContent_def split: prod.splits)

lemma liveServer_aof: "aofFile liveServer = Some (''SET a 1'' @ [newline])"
  by (simp add: liveServer_def executeCommand_def request_sel Str_bulkValue ToUpper_SET
      isWriteCommand_def WriteAOF_def NewServer_def cmdStr_def dispatch_def handleSet_def Let_def)

lemma liveServer_data: "data (db liveServer) ''a'' = Some (stringValue ''1'')"
  by (simp add: liveServer_def executeCommand_def request_sel Str_bulkValue ToUpper_SET
      isWriteCommand_def WriteAOF_def NewServer_def cmdStr_def dispatch_def handleSet_def Let_def
      Set_def)

lemma LoadAOF_db: "db (snd (snd (LoadAOF s))) = db s"
  by (simp add: LoadAOF_def split: option.splits prod.splits)

lemma Get_no_expiry:
  "expiry base = Map.empty \<Longrightarrow>
   Get now base key =
     (case data base key of
        None \<Rightarrow> (([], False), base)
      | Some val \<Rightarrow> if Type val = StringType then ((StrVal val, True), base)
                    else (([], False), base))"
  by (simp add: Get_def isExpired_def split: option.splits)

lemma TTL_no_expiry:
  "expiry base = Map.empty \<Longrightarrow>
   TTL now base key = (if data base key = None then - 2 else - 1, base)"
  by (simp add: TTL_def split: option.splits)

lemma Keys_no_expiry: "expiry base = Map.empty \<Longrightarrow> Keys now base order = order"
  by (simp add: Keys_def isExpired_def)

lemma saveLoop_no_expiry:
  "expiry base = Map.empty \<Longrightarrow>
   saveLoop now base keys d =
     (\<lambda>k. if k \<in> set keys
          then (case data base k of
                  None \<Rightarrow> d k
                | Some val \<Rightarrow> if Type val = StringType then Some (GobString (StrVal val)) else d k)
          else d k,
      base)"
proof (induction keys arbitrary: d)
  case Nil
  then show ?case by simp
next
  case (Cons key keys)
  show ?case
    by (simp add: Get_no_expiry [OF Cons.prems] TTL_no_expiry [OF Cons.prems]
        Cons.IH [OF Cons.prems] Let_def fun_eq_iff split: option.splits)
qed

lemma loadLoop_data:
  "data (loadLoop base d keys) =
     (\<lambda>k. if k \<in> set keys
          then (case d k of Some (GobString v) \<Rightarrow> Some (stringValue v) | _ \<Rightarrow> data base k)
          else data base k)"
  by (induction keys arbitrary: base)
    (auto simp: fun_eq_iff Set_def split: option.splits GobVal.splits)

lemma loadLoop_expiry:
  "expiry (loadLoop base d keys) =
     (\<lambda>k. if k \<in> set keys
          then (case d k of Some (GobString v) \<Rightarrow> None | _ \<Rightarrow> expiry base k)
          else expiry base k)"
  by (induction keys arbitrary: base)
    (auto simp: fun_eq_iff Set_def split: option.splits GobVal.splits)

lemma SaveRDB_no_expiry:
  assumes "rdbEnabled s" and "expiry (db s) = Map.empty"
  shows "db (SaveRDB now order s) = db s"
    and "snapshotData (SaveRDB now order s) =
      (\<lambda>k. if k \<in> set order
           then (case data (db s) k of
                   None \<Rightarrow> None
                 | Some val \<Rightarrow> if Type val = StringType then Some (GobString (StrVal val)) else None)
           else None)"
    and "rdbEnabled (SaveRDB now order s)"
  using assms
  by (simp_all add: SaveRDB_def Keys_no_expiry saveLoop_no_expiry snapshotData_def)

lemma loadLoop_empty: "loadLoop base Map.empty keys = base"
  by (induction keys) simp_all

lemma LoadRDB_NewServer:
  "db (snd (LoadRDB order' (NewServer aof (rdbFile s)))) =
     loadLoop NewDatabase (snapshotData s) order'"
  by (simp add: LoadRDB_def NewServer_def snapshotData_def loadLoop_empty split: option.splits)

lemma hashServer_simps:
  "rdbEnabled hashServer" "expiry (db hashServer) = Map.empty"
  "data (db hashServer) ''h'' \<noteq> None" "dom (data (db hashServer)) = {''h''}"
  by (simp_all add: hashServer_def NewServer_def HSet_def NewDatabase_def)

lemma Type_hashServer: "data (db hashServer) k = Some val \<Longrightarrow> Type val = HashType"
  by (auto simp: hashServer_def NewServer_def HSet_def NewDatabase_def split: if_splits)

lemma ttlServer_save:
  "snapshotData (SaveRDB 5000000000 [''k''] ttlServer)
     = [''k'' \<mapsto> GobString ''41'', ''k__ttl__'' \<mapsto> GobInt 95]"
  by (simp add: snapshotData_def SaveRDB_def ttlServer_def NewServer_def Keys_def isExpired_def
      ttlDb_simps Get_def TTL_ttlDb_95 stringValue_sel)

lemma stringServer_simps:
  "rdbEnabled stringServer" "expiry (db stringServer) = Map.empty"
  "data (db stringServer) = [''a'' \<mapsto> stringValue ''1'', ''b'' \<mapsto> stringValue ''x y'']"
  by (simp_all add: stringServer_def NewServer_def Set_def NewDatabase_def)

lemma stringServer_save:
  "snapshotData (SaveRDB 0 [''a'', ''b''] stringServer)
     = [''a'' \<mapsto> GobString ''1'', ''b'' \<mapsto> GobString ''x y'']"
  by (simp add: snapshotData_def SaveRDB_def Keys_def isExpired_def Get_def TTL_def
      stringServer_simps stringValue_sel)

lemma handleConnection_EOF:
  "readRESPArray (snd (snd (env i))) stream = (Failure EOF, r) \<Longrightarrow>
   handleConnection up env i s stream = (Closed, [], s)"
  by (subst handleConnection.simps) simp

lemma handleConnection_error:
  "readRESPArray (snd (snd (env i))) stream = (Failure err, r) \<Longrightarrow> err \<noteq> EOF \<Longrightarrow>
   handleConnection up env i s stream =
     written (WriteReadError err) (handleConnection up env (Suc i) s r)"
  by (subst handleConnection.simps) simp

lemma handleConnection_panic:
  "readRESPArray (snd (snd (env i))) stream = (Panic, r) \<Longrightarrow>
   handleConnection up env i s stream = (Crashed, [], s)"
  by (subst handleConnection.simps) simp

lemma handleConnection_command:
  "readRESPArray (snd (snd (env i))) stream = (Value cmd, r) \<Longrightarrow> cmd \<noteq> [] \<Longrightarrow>
   handleConnection up env i s stream =
     written
       (WriteResponse
          (fst (executeCommand up (fst (env i)) (fst (snd (env i))) s (request cmd))))
       (handleConnection up env (Suc i)
          (snd (executeCommand up (fst (env i)) (fst (snd (env i))) s (request cmd))) r)"
  by (subst handleConnection.simps) (simp split: prod.splits)

lemma Atoi_small:
  "Atoi ''1'' = Some 1" "Atoi ''3'' = Some 3" "Atoi ''4'' = Some 4" "Atoi ''x'' = None"
  "Atoi ''-5'' = Some (- 5)"
  by code_simp+

lemma readBulkString_SET:
  "readBulkString maxAlloc (''$3'' @ crlf @ ''SET'' @ crlf @ r) = (Value ''SET'', r)"
  by (simp add: readBulkString_def ReadString_def crlf_def newline_def TrimSpace_def
      spaceRunes_def Atoi_small canMake_def maxAlloc_def)

lemma readBulkString_a:
  "readBulkString maxAlloc (''$1'' @ crlf @ ''a'' @ crlf @ r) = (Value ''a'', r)"
  by (simp add: readBulkString_def ReadString_def crlf_def newline_def TrimSpace_def
      spaceRunes_def Atoi_small canMake_def maxAlloc_def)

lemma readBulkString_1:
  "readBulkString maxAlloc (''$1'' @ crlf @ ''1'' @ crlf @ r) = (Value ''1'', r)"
  by (simp add: readBulkString_def ReadString_def crlf_def newline_def TrimSpace_def
      spaceRunes_def Atoi_small canMake_def maxAlloc_def)

lemma readBulkString_PING:
  "readBulkString maxAlloc (''$4'' @ crlf @ ''PING'' @ crlf @ r) = (Value ''PING'', r)"
  by (simp add: readBulkString_def ReadString_def crlf_def newline_def TrimSpace_def
      spaceRunes_def Atoi_small canMake_def maxAlloc_def)

lemma readBulkString_negative:
  "readBulkString mem (''$-5'' @ crlf @ r) = (Panic, r)"
  by (simp add: readBulkString_def ReadString_def crlf_def newline_def TrimSpace_def
      spaceRunes_def Atoi_small canMake_def)

lemma read_setFrame:
  "readRESPArray maxAlloc (setFrame @ r) = (Value [''SET'', ''a'', ''1''], r)"
proof -
  have "readRESPArray maxAlloc (setFrame @ r) =
      readBulkStrings maxAlloc 3 0 (''$3'' @ crlf @ ''SET'' @ crlf @ ''$1'' @ crlf @ ''a'' @ crlf
         @ ''$1'' @ crlf @ ''1'' @ crlf @ r)"
    by (simp add: readRESPArray_def setFrame_def ReadString_def crlf_def newline_def
        TrimSpace_def spaceRunes_def Atoi_small canMake_def maxAlloc_def)
  also have "\<dots> = (Value [''SET'', ''a'', ''1''], r)"
    using readBulkString_SET readBulkString_a readBulkString_1
    by (simp add: numeral_3_eq_3)
  finally show ?thesis .
qed

lemma read_pingFrame: "readRESPArray maxAlloc (pingFrame @ r) = (Value [''PING''], r)"
proof -
  have "readRESPArray maxAlloc (pingFrame @ r) =
      readBulkStrings maxAlloc 1 0 (''$4'' @ crlf @ ''PING'' @ crlf @ r)"
    by (simp add: readRESPArray_def pingFrame_def ReadString_def crlf_def newline_def
        TrimSpace_def spaceRunes_def Atoi_small canMake_def maxAlloc_def)
  also have "\<dots> = (Value [''PING''], r)"
    using readBulkString_PING by simp
  finally show ?thesis .
qed

lemma read_negativeFrame: "readRESPArray maxAlloc (negativeFrame @ r) = (Panic, r)"
proof -
  have "readRESPArray maxAlloc (negativeFrame @ r) =
      readBulkStrings maxAlloc 1 0 (''$-5'' @ crlf @ r)"
    by (simp add: readRESPArray_def negativeFrame_def ReadString_def crlf_def newline_def
        TrimSpace_def spaceRunes_def Atoi_small canMake_def maxAlloc_def)
  also have "\<dots> = (Panic, r)"
    using readBulkString_negative by simp
  finally show ?thesis .
qed

lemma read_bad_length:
  "readRESPArray mem (''*x'' @ crlf @ r) = (Failure (InvalidArrayLength ''x''), r)"
  by (simp add: readRESPArray_def ReadString_def crlf_def newline_def TrimSpace_def
      spaceRunes_def Atoi_small)

lemma read_empty: "readRESPArray mem [] = (Failure EOF, [])"
  by (simp add: readRESPArray_def)

lemma read_bad_type:
  "c \<noteq> CHR ''*'' \<Longrightarrow> readRESPArray mem (c # rest) = (Failure (ExpectedArray c), rest)"
  by (simp add: readRESPArray_def)

lemma ReadString_line:
  "newline \<notin> set line \<Longrightarrow>
   ReadString (line @ newline # rest) = (Some (line @ [newline]), rest)"
  by (induction line) (auto simp: ReadString_def)

lemma ReadString_truncated: "newline \<notin> set line \<Longrightarrow> ReadString line = (None, [])"
  by (simp add: ReadString_def)

lemma read_unparsable_length:
  "newline \<notin> set line \<Longrightarrow> Atoi (TrimSpace (line @ [newline])) = None \<Longrightarrow>
   readRESPArray mem (CHR ''*'' # line @ newline # rest)
     = (Failure (InvalidArrayLength (TrimSpace (line @ [newline]))), rest)"
  by (simp add: readRESPArray_def ReadString_line)

lemma read_truncated_length:
  "newline \<notin> set line \<Longrightarrow> readRESPArray mem (CHR ''*'' # line) = (Failure ArrayLengthRead, [])"
  by (simp add: readRESPArray_def ReadString_truncated)

lemma read_unallocatable_length:
  "newline \<notin> set line \<Longrightarrow> Atoi (TrimSpace (line @ [newline])) = Some len \<Longrightarrow> 0 < len \<Longrightarrow>
   \<not> canMake mem 16 len \<Longrightarrow>
   readRESPArray mem (CHR ''*'' # line @ newline # rest) = (Panic, rest)"
  by (simp add: readRESPArray_def ReadString_line)

lemma readBulkStrings_not_EOF: "readBulkStrings mem n i stream \<noteq> (Failure EOF, r)"
  by (induction n arbitrary: i stream r) (auto split: prod.splits outcome.splits)

lemma readRESPArray_not_EOF: "stream \<noteq> [] \<Longrightarrow> fst (readRESPArray mem stream) \<noteq> Failure EOF"
proof (cases stream)
  case Nil
  assume "stream \<noteq> []"
  with Nil show ?thesis by simp
next
  case (Cons c r1)
  have "fst (readBulkStrings mem n 0 r) \<noteq> Failure EOF" for n r
    by (cases "readBulkStrings mem n 0 r") (auto simp: readBulkStrings_not_EOF)
  then show ?thesis
    by (auto simp: Cons readRESPArray_def Let_def split: prod.splits option.splits)
qed

lemma read_bad_bulk_length:
  "readRESPArray maxAlloc (''*1'' @ crlf @ ''$x'' @ crlf @ r)
     = (Failure (BulkStringError 0 (InvalidBulkLength ''x'')), r)"
proof -
  have "readBulkString maxAlloc (''$x'' @ crlf @ r) = (Failure (InvalidBulkLength ''x''), r)"
    by (simp add: readBulkString_def ReadString_def crlf_def newline_def TrimSpace_def
        spaceRunes_def Atoi_small)
  then show ?thesis
    by (simp add: readRESPArray_def ReadString_def crlf_def newline_def TrimSpace_def
        spaceRunes_def Atoi_small canMake_def maxAlloc_def)
qed

text \<open>A length that cannot be allocated ends the process, whatever follows.\<close>

lemma Atoi_huge: "Atoi ''17592186044417'' = Some 17592186044417"
  by (simp add: Atoi_def ParseInt_def isDigit_def digitsVal_def)

lemma read_huge_length:
  "readRESPArray maxAlloc (''*17592186044417'' @ crlf @ r) = (Panic, r)"
  using Atoi_huge
  by (simp add: readRESPArray_def ReadString_def crlf_def newline_def TrimSpace_def
      spaceRunes_def canMake_def maxAlloc_def)

text \<open>White space of Unicode around a length field is trimmed like that of ASCII.\<close>

lemma TrimSpace_unicode:
  "TrimSpace ([CHR 0xC2, CHR 0xA0] @ ''3'' @ [CHR 0xE2, CHR 0x80, CHR 0x89] @ crlf) = ''3''"
  by (simp add: TrimSpace_def spaceRunes_def crlf_def)

lemma atZero_sel: "fst (atZero i) = 0" "fst (snd (atZero i)) = []" "snd (snd (atZero i)) = maxAlloc"
  by (simp_all add: atZero_def)

lemma handleConnection_negative_length:
  "handleConnection up atZero i s (negativeFrame @ r) = (Crashed, [], s)"
  by (rule handleConnection_panic [where r = r]) (simp add: atZero_sel read_negativeFrame)

lemma exec_PING:
  "executeCommand unusedUpper 0 [] (NewServer None None) (request [''PING'']) =
     (simpleValue ''PONG'', NewServer None None)"
  by (simp add: executeCommand_def request_sel Str_bulkValue ToUpper_verbs isWriteCommand_def
      dispatch_def handlePing_def Let_def)

lemma handleConnection_ping:
  "handleConnection unusedUpper atZero i (NewServer None None) pingFrame =
     (Closed, [WriteResponse (simpleValue ''PONG'')], NewServer None None)"
proof -
  have "handleConnection unusedUpper atZero i (NewServer None None) pingFrame =
      written (WriteResponse (simpleValue ''PONG''))
        (handleConnection unusedUpper atZero (Suc i) (NewServer None None) [])"
    using handleConnection_command [where env = atZero and i = i and up = unusedUpper
        and s = "NewServer None None" and stream = pingFrame and r = "[]"
        and cmd = "[''PING'']"] read_pingFrame [of "[]"]
    by (simp add: atZero_sel exec_PING)
  also have "handleConnection unusedUpper atZero (Suc i) (NewServer None None) [] =
      (Closed, [], NewServer None None)"
    by (rule handleConnection_EOF [OF read_empty])
  finally show ?thesis by (simp add: written_def)
qed

lemma exec_SET:
  "executeCommand unusedUpper 0 [] (NewServer None None) (request [''SET'', ''a'', ''1'']) =
     (simpleValue ''OK'', liveServer)"
  by (simp add: liveServer_def executeCommand_def request_sel Str_bulkValue ToUpper_SET
      isWriteCommand_def WriteAOF_def NewServer_def cmdStr_def dispatch_def handleSet_def Let_def)

section \<open>INCR on an absent key and on a value that is not an integer\<close>



section \<open>INCR and DECR clear the expiry\<close>




section \<open>EXPIRE on a key that has expired but is still stored\<close>

text \<open>
  Claim C10. Let the key hold a string whose expiry instant has passed, with the key
  still in the database (so \<open>GET\<close> at this instant treats it as absent). Then
  \<open>EXPIRE key seconds\<close>, for a positive number of seconds whose nanoseconds fit a
  \<open>Duration\<close>, replies 1 and installs the expiry \<open>now + seconds\<close>, which lies in the
  future; and a \<open>GET\<close> up to that new instant returns the old value. \<open>Expire\<close> makes no
  lazy-expiry check.
\<close>

theorem expire_on_stale_key:
  assumes "data d key = Some val" and "Type val = StringType"
    and "expiry d key = Some e" and "e < now"
    and "0 < seconds" and "seconds \<le> 9223372036" and "Atoi secs = Some seconds"
    and "now \<le> now'" and "now' \<le> now + seconds * 1000000000"
  shows "fst (Get now d key) = ([], False) \<and>
         Expire now d key seconds =
           (True, d\<lparr>expiry := (expiry d)(key \<mapsto> now + seconds * 1000000000)\<rparr>) \<and>
         fst (handleExpire now d [key, secs]) = integerValue 1 \<and>
         now < now + seconds * 1000000000 \<and>
         fst (Get now' (snd (handleExpire now d [key, secs])) key) = (StrVal val, True)"
proof -
  have w: "wrap64 (seconds * 1000000000) = seconds * 1000000000"
    using assms(5,6) by (intro wrap64_id) simp_all
  have g: "fst (Get now d key) = ([], False)"
    using assms(3,4) by (simp add: Get_def isExpired_def)
  have x: "Expire now d key seconds =
      (True, d\<lparr>expiry := (expiry d)(key \<mapsto> now + seconds * 1000000000)\<rparr>)"
    using assms(1) by (simp add: Expire_def w)
  have h: "handleExpire now d [key, secs] =
      (integerValue 1, d\<lparr>expiry := (expiry d)(key \<mapsto> now + seconds * 1000000000)\<rparr>)"
    using assms(7) by (simp add: handleExpire_def x)
  have r: "fst (Get now' (d\<lparr>expiry := (expiry d)(key \<mapsto> now + seconds * 1000000000)\<rparr>) key)
      = (StrVal val, True)"
    using assms(1,2,9) by (simp add: Get_def isExpired_def)
  from g x h r assms(5) show ?thesis by simp
qed

theorem expire_on_stale_key_witness:
  "fst (Get 5000000000 staleDb ''k'') = ([], False) \<and>
   fst (handleExpire 5000000000 staleDb [''k'', ''10'']) = integerValue 1 \<and>
   fst (Get 6000000000 (snd (handleExpire 5000000000 staleDb [''k'', ''10''])) ''k'')
     = (''old'', True)"
  using expire_on_stale_key [where d = staleDb and key = "''k''" and val = "stringValue ''old''"
      and e = 1000000000 and now = 5000000000 and seconds = 10 and secs = "''10''"
      and now' = 6000000000]
  by (simp add: staleDb_simps stringValue_def Atoi_10)

section \<open>The value of TTL\<close>

text \<open>
  Claim C8, as stated, fails: with 9.9 seconds left on the key, \<open>TTL\<close> returns 9.
\<close>

theorem TTL_rounding_counterexample:
  "expiry ttlDb ''k'' = Some 100000000000 \<and>
   fst (TTL 90100000000 ttlDb ''k'') = 9 \<and> fst (TTL 90100000000 ttlDb ''k'') \<noteq> 10"
  using TTL_live [OF ttlDb_k, of 90100000000] by (simp add: ttlDb_k)

text \<open>
  Claim C8, amended. \<open>TTL\<close> returns -2 when the key is absent or its expiry instant has
  been reached (and then purges the key), and -1 when the key is stored with no expiry.
  Otherwise, when less than \<open>2^24\<close> seconds remain (about 194 days), it returns the
  number of whole seconds that remain: the remaining time rounded down. For longer
  remaining times the floating-point conversion returns that number or one more.
\<close>

theorem TTL_truncates:
  "(data d key = None \<longrightarrow> fst (TTL now d key) = - 2) \<and>
   (data d key \<noteq> None \<and> expiry d key = None \<longrightarrow> fst (TTL now d key) = - 1) \<and>
   (data d key \<noteq> None \<and> expiry d key = Some e \<and> e \<le> now \<longrightarrow>
      fst (TTL now d key) = - 2 \<and> data (snd (TTL now d key)) key = None) \<and>
   (data d key \<noteq> None \<and> expiry d key = Some e \<and> now < e \<and>
    e - now < 2 ^ 24 * 1000000000 \<longrightarrow>
      fst (TTL now d key) = (e - now) div 1000000000 \<and>
      fst (TTL now d key) * 1000000000 \<le> e - now \<and>
      e - now < (fst (TTL now d key) + 1) * 1000000000 \<and>
      snd (TTL now d key) = d) \<and>
   (data d key \<noteq> None \<and> expiry d key = Some e \<and> now < e \<longrightarrow>
      Sub e now div 1000000000 \<le> fst (TTL now d key) \<and>
      fst (TTL now d key) \<le> Sub e now div 1000000000 + 1 \<and>
      snd (TTL now d key) = d)"
proof (intro conjI impI)
  assume "data d key = None"
  then show "fst (TTL now d key) = - 2" by (simp add: TTL_def)
next
  assume "data d key \<noteq> None \<and> expiry d key = None"
  then show "fst (TTL now d key) = - 1" by (auto simp: TTL_def)
next
  assume a: "data d key \<noteq> None \<and> expiry d key = Some e \<and> e \<le> now"
  then obtain val where v: "data d key = Some val" by auto
  from TTL_due [OF v] a have t: "TTL now d key = (- 2, purge d key)" by simp
  from t show "fst (TTL now d key) = - 2" by simp
  from t show "data (snd (TTL now d key)) key = None" by (simp add: purge_def)
next
  assume a: "data d key \<noteq> None \<and> expiry d key = Some e \<and> now < e \<and>
    e - now < 2 ^ 24 * 1000000000"
  then obtain val where v: "data d key = Some val" by auto
  from TTL_live [OF v] a have t: "TTL now d key = ((e - now) div 1000000000, d)" by simp
  from t show "fst (TTL now d key) = (e - now) div 1000000000" by simp
  from t show "snd (TTL now d key) = d" by simp
  have q: "(e - now) div 1000000000 * 1000000000 = (e - now) - (e - now) mod 1000000000"
    by (simp only: minus_mod_eq_div_mult)
  have m: "0 \<le> (e - now) mod 1000000000" "(e - now) mod 1000000000 < 1000000000"
    by simp_all
  from m(1) show "fst (TTL now d key) * 1000000000 \<le> e - now"
    unfolding t fst_conv q by simp
  from m(2) show "e - now < (fst (TTL now d key) + 1) * 1000000000"
    unfolding t fst_conv distrib_right q by simp
next
  assume a: "data d key \<noteq> None \<and> expiry d key = Some e \<and> now < e"
  then obtain val where v: "data d key = Some val" by auto
  from a have e: "expiry d key = Some e" and l: "now < e" by simp_all
  from TTL_live_bounds [OF v e l]
  show "Sub e now div 1000000000 \<le> fst (TTL now d key)"
    and "fst (TTL now d key) \<le> Sub e now div 1000000000 + 1"
    and "snd (TTL now d key) = d"
    by simp_all
qed

theorem TTL_truncates_witness:
  "fst (TTL 0 NewDatabase ''k'') = - 2 \<and>
   fst (TTL 0 (Set NewDatabase ''k'' ''v'') ''k'') = - 1 \<and>
   fst (TTL 100000000000 ttlDb ''k'') = - 2 \<and>
   fst (TTL 99500000000 ttlDb ''k'') = 0 \<and>
   fst (TTL 90100000000 ttlDb ''k'') = 9 \<and>
   9223372035 \<le> fst (TTL 500 longDb ''k'') \<and> fst (TTL 500 longDb ''k'') \<le> 9223372036"
proof -
  have "Sub 9223372036000000000 500 div 1000000000 = 9223372035" by (simp add: Sub_def)
  with TTL_truncates [where d = longDb and key = "''k''" and now = 500
      and e = 9223372036000000000]
  have "9223372035 \<le> fst (TTL 500 longDb ''k'') \<and> fst (TTL 500 longDb ''k'') \<le> 9223372036"
    by (simp add: longDb_k)
  with TTL_truncates [where d = NewDatabase and key = "''k''" and now = 0]
    TTL_truncates [where d = "Set NewDatabase ''k'' ''v''" and key = "''k''" and now = 0]
    TTL_truncates [where d = ttlDb and key = "''k''" and now = 100000000000 and e = 100000000000]
    TTL_truncates [where d = ttlDb and key = "''k''" and now = 99500000000 and e = 100000000000]
    TTL_truncates [where d = ttlDb and key = "''k''" and now = 90100000000 and e = 100000000000]
  show ?thesis
    by (simp add: NewDatabase_def Set_def ttlDb_simps)
qed

section \<open>INCR and DECR at the ends of the 64-bit range\<close>

text \<open>
  Claim C3, as stated, fails: \<open>INCR\<close> on a key holding 9223372036854775807 replies the
  integer -9223372036854775808, not an error, and stores it.
\<close>

theorem incr_overflow_counterexample:
  "handleIncr 0 maxDb [''k''] =
     (integerValue (- 9223372036854775808), Set maxDb ''k'' ''-9223372036854775808'') \<and>
   fst (Get 0 (snd (handleIncr 0 maxDb [''k''])) ''k'') = (''-9223372036854775808'', True) \<and>
   RType (fst (handleIncr 0 maxDb [''k''])) \<noteq> Error"
proof -
  have g: "Get 0 maxDb ''k'' = ((''9223372036854775807'', True), maxDb)"
    by (simp add: Get_def isExpired_def maxDb_simps stringValue_sel)
  have h: "handleIncr 0 maxDb [''k''] =
      (integerValue (- 9223372036854775808), Set maxDb ''k'' ''-9223372036854775808'')"
    by (simp add: handleIncr_def g ParseInt_max wrap64_def FormatInt_min)
  show ?thesis
    unfolding h by (simp add: Get_def isExpired_def Set_def stringValue_sel integerValue_def)
qed

text \<open>
  Claim C3, amended. For a key holding (unexpired) a string that parses as the signed
  64-bit integer \<open>n\<close>, \<open>INCR\<close> replies \<open>n + 1\<close> and stores its decimal text, except that
  at the largest value it wraps around to the smallest; \<open>DECR\<close> replies \<open>n - 1\<close> and
  stores it, except that at the smallest value it wraps around to the largest. Neither
  replies an error.
\<close>

theorem incr_decr_wrap_around:
  assumes "data d key = Some val" and "Type val = StringType" and "\<not> isExpired now d key"
    and "ParseInt (StrVal val) = Some n"
  shows "handleIncr now d [key] =
           (integerValue (if n = 2 ^ 63 - 1 then - (2 ^ 63) else n + 1),
            Set d key (FormatInt (if n = 2 ^ 63 - 1 then - (2 ^ 63) else n + 1))) \<and>
         handleDecr now d [key] =
           (integerValue (if n = - (2 ^ 63) then 2 ^ 63 - 1 else n - 1),
            Set d key (FormatInt (if n = - (2 ^ 63) then 2 ^ 63 - 1 else n - 1)))"
proof -
  from assms(4) have r: "- (2 ^ 63) \<le> n" "n < 2 ^ 63"
    using ParseInt_range by blast+
  have g: "Get now d key = ((StrVal val, True), d)"
    using assms(1-3) by (simp add: Get_def)
  have i: "wrap64 (n + 1) = (if n = 2 ^ 63 - 1 then - (2 ^ 63) else n + 1)"
  proof (cases "n = 2 ^ 63 - 1")
    case True
    then show ?thesis by (simp add: wrap64_def)
  next
    case False
    with r show ?thesis by (simp add: wrap64_id)
  qed
  have d: "wrap64 (n - 1) = (if n = - (2 ^ 63) then 2 ^ 63 - 1 else n - 1)"
  proof (cases "n = - (2 ^ 63)")
    case True
    then show ?thesis by (simp add: wrap64_def)
  next
    case False
    with r show ?thesis by (simp add: wrap64_id)
  qed
  have "handleIncr now d [key] =
      (integerValue (wrap64 (n + 1)), Set d key (FormatInt (wrap64 (n + 1))))"
    by (simp add: handleIncr_def g assms(4) Let_def)
  moreover have "handleDecr now d [key] =
      (integerValue (wrap64 (n - 1)), Set d key (FormatInt (wrap64 (n - 1))))"
    by (simp add: handleDecr_def g assms(4) Let_def)
  ultimately show ?thesis
    unfolding i d by simp
qed

theorem incr_decr_wrap_around_witness:
  "handleIncr 0 maxDb [''k''] =
     (integerValue (- 9223372036854775808), Set maxDb ''k'' ''-9223372036854775808'') \<and>
   handleDecr 0 minDb [''k''] =
     (integerValue 9223372036854775807, Set minDb ''k'' ''9223372036854775807'')"
proof -
  note t = stringValue_sel
  have e: "\<not> isExpired 0 maxDb ''k''" "\<not> isExpired 0 minDb ''k''"
    by (simp_all add: isExpired_def maxDb_simps minDb_simps)
  have a: "ParseInt (StrVal (stringValue ''9223372036854775807'')) = Some 9223372036854775807"
    by (simp add: t ParseInt_max)
  have b: "ParseInt (StrVal (stringValue ''-9223372036854775808'')) = Some (- 9223372036854775808)"
    by (simp add: t ParseInt_min)
  from incr_decr_wrap_around [OF maxDb_simps(1) t(1) e(1) a]
    incr_decr_wrap_around [OF minDb_simps(1) t(1) e(2) b]
  show ?thesis by (simp add: FormatInt_min FormatInt_max)
qed

section \<open>The text of a log record\<close>

text \<open>
  Claim C6, as stated, fails: the record is the verb and the arguments joined by single
  spaces, so two different argument lists give the same record when an argument
  contains a space.
\<close>

theorem cmdStr_ambiguous_counterexample:
  "cmdStr ''SET'' [''a b'', ''c''] = cmdStr ''SET'' [''a'', ''b c''] \<and>
   [''a b'', ''c''] \<noteq> [''a'', ''b c'']"
  by (simp add: cmdStr_def)

text \<open>
  Claim C6, amended. On verbs and arguments that contain no space character the record
  text determines the verb and the argument list: the encoding is injective there.
\<close>

theorem cmdStr_injective_without_spaces:
  assumes "CHR '' '' \<notin> set command" and "CHR '' '' \<notin> set command'"
    and "\<forall>a\<in>set args. CHR '' '' \<notin> set a" and "\<forall>a\<in>set args'. CHR '' '' \<notin> set a"
    and "cmdStr command args = cmdStr command' args'"
  shows "command = command' \<and> args = args'"
proof -
  from assms(5) have "command @ concat (map (\<lambda>arg. CHR '' '' # arg) args)
      = command' @ concat (map (\<lambda>arg. CHR '' '' # arg) args')"
    by (simp add: cmdStr_concat)
  with assms(1,2) have "command = command'"
    and "concat (map (\<lambda>arg. CHR '' '' # arg) args) = concat (map (\<lambda>arg. CHR '' '' # arg) args')"
    using word_tail_unique by blast+
  with assms(3,4) show ?thesis
    using tail_unique by blast
qed

theorem cmdStr_injective_without_spaces_witness:
  "CHR '' '' \<notin> set ''SET'' \<and> CHR '' '' \<notin> set ''a'' \<and> CHR '' '' \<notin> set ''1'' \<and>
   cmdStr ''SET'' [''a'', ''1''] = ''SET a 1'' \<and>
   ''SET'' = ''SET'' \<and> [''a'', ''1''] = [''a'', ''1'']"
  using cmdStr_injective_without_spaces [where command = "''SET''" and command' = "''SET''"
      and args = "[''a'', ''1'']" and args' = "[''a'', ''1'']"]
  by (simp add: cmdStr_def)

section \<open>Which requests reach the log\<close>

text \<open>
  Claim C2, as stated, fails: \<open>SET a\<close> is rejected for its arity and leaves the database
  as it was, and yet the record \<open>SET a\<close> has been appended to the log.
\<close>

theorem rejected_SET_is_logged_counterexample:
  "fst (executeCommand unusedUpper 0 [] (NewServer None None) (request [''SET'', ''a''])) =
     errorValue ''ERR wrong number of arguments for 'set' command'' \<and>
   db (snd (executeCommand unusedUpper 0 [] (NewServer None None) (request [''SET'', ''a''])))
     = NewDatabase \<and>
   aofFile (snd (executeCommand unusedUpper 0 [] (NewServer None None)
       (request [''SET'', ''a''])))
     = Some (''SET a'' @ [newline])"
  by (simp add: executeCommand_def request_sel Str_bulkValue ToUpper_SET isWriteCommand_def
      WriteAOF_def NewServer_def cmdStr_def dispatch_def handleSet_def Let_def)

text \<open>
  Claim C2, amended. With the log enabled, a sequence of requests extends the log by
  one record for each request whose verb, upper-cased by \<open>strings.ToUpper\<close>, is one of
  \<open>SET\<close>, \<open>DEL\<close>, \<open>EXPIRE\<close>, \<open>HSET\<close>, \<open>HDEL\<close>, \<open>INCR\<close>, \<open>DECR\<close>, in the order of the
  requests, and by nothing for any other request. The record is the upper-cased verb
  followed by the arguments, and it depends on the verb and the arguments alone, not
  on whether the handler then accepts the command or changes the database. This holds
  whatever \<open>Map(unicode.ToUpper, s)\<close> returns on the verbs that are not ASCII.
\<close>

theorem executeAll_aof:
  "aofEnabled s \<Longrightarrow>
   aofContent (snd (executeAll up s reqs)) =
     aofContent s @ concat (map (\<lambda>(now, order, parts). walRecord up parts) reqs)"
proof (induction reqs arbitrary: s)
  case Nil
  then show ?case by simp
next
  case (Cons req reqs)
  obtain now order parts where req: "req = (now, order, parts)"
    by (cases req) auto
  obtain reply s' where e: "executeCommand up now order s (request parts) = (reply, s')"
    by (cases "executeCommand up now order s (request parts)") auto
  from executeCommand_aof [OF Cons.prems, of up now order parts] e
  have s': "aofContent s' = aofContent s @ walRecord up parts" "aofEnabled s'"
    by simp_all
  from Cons.IH [OF s'(2)] s'(1) show ?case
    unfolding req executeAll_Cons e by simp
qed

theorem executeAll_aof_witness:
  "aofContent (snd (executeAll longSUpper (NewServer None None)
       [(0, [], [''set'', ''a'', ''1'']), (1, [], [''Del'', ''a'']),
        (2, [], [''expire'', ''a'', ''10'']), (3, [], [''hSet'', ''h'', ''f'', ''v'']),
        (4, [], [''hdel'', ''h'', ''f'']), (5, [], [''incr'', ''n'']),
        (6, [], [''DECR'', ''n'']), (7, [], [''get'', ''a'']), (8, [], [''SET'', ''a'']),
        (9, [], [''PING'']), (10, [], [longSet, ''b'', ''2''])]))
     = ''SET a 1'' @ [newline] @ ''DEL a'' @ [newline] @ ''EXPIRE a 10'' @ [newline]
       @ ''HSET h f v'' @ [newline] @ ''HDEL h f'' @ [newline] @ ''INCR n'' @ [newline]
       @ ''DECR n'' @ [newline] @ ''SET a'' @ [newline] @ ''SET b 2'' @ [newline]"
proof -
  have a: "aofEnabled (NewServer None None)" by (simp add: NewServer_def)
  have c: "aofContent (NewServer None None) = []" by (simp add: aofContent_def NewServer_def)
  from executeAll_aof [OF a, where up = longSUpper and reqs =
      "[(0, [], [''set'', ''a'', ''1'']), (1, [], [''Del'', ''a'']),
        (2, [], [''expire'', ''a'', ''10'']), (3, [], [''hSet'', ''h'', ''f'', ''v'']),
        (4, [], [''hdel'', ''h'', ''f'']), (5, [], [''incr'', ''n'']),
        (6, [], [''DECR'', ''n'']), (7, [], [''get'', ''a'']), (8, [], [''SET'', ''a'']),
        (9, [], [''PING'']), (10, [], [longSet, ''b'', ''2''])]"]
  show ?thesis
    by (simp add: c walRecord_def ToUpper_verbs ToUpper_longSet cmdStr_def)
qed

section \<open>Loading the log at startup\<close>

text \<open>
  Claim C1 at the log of one \<open>SET a 1\<close>. The live server holds \<open>a\<close> and its log holds the
  record. A server started on that log prints the record and its database stays empty:
  \<open>LoadAOF\<close> does not pass the record to the dispatcher, so the state after recovery
  differs from the live state.
\<close>

theorem LoadAOF_does_not_replay:
  "aofFile liveServer = Some (''SET a 1'' @ [newline]) \<and>
   data (db liveServer) ''a'' = Some (stringValue ''1'') \<and>
   fst (snd (LoadAOF (NewServer (aofFile liveServer) None))) = [''Replaying command: SET a 1''] \<and>
   db (StartLoad [] (NewServer (aofFile liveServer) None)) = NewDatabase \<and>
   data (db (StartLoad [] (NewServer (aofFile liveServer) None))) ''a'' = None"
  by (simp add: liveServer_aof liveServer_data LoadAOF_def scanLines_def StartLoad_def
      LoadRDB_def NewServer_def newline_def dropCR_def NewDatabase_def)

section \<open>Saving and loading a snapshot\<close>

text \<open>
  Claim C4, as stated, fails. A key holding a hash is not written to the snapshot, so
  it is missing after the load; and for a string key with 95 seconds to live the
  snapshot holds the entry \<open>k__ttl__\<close>, which the load skips, so the restored key has
  no expiry.
\<close>

theorem snapshot_loses_hashes_and_ttls_counterexample:
  "data (db hashServer) ''h'' \<noteq> None \<and>
   snapshotData (SaveRDB 0 [''h''] hashServer) = Map.empty \<and>
   data (db (snd (LoadRDB [] (NewServer None (rdbFile (SaveRDB 0 [''h''] hashServer)))))) ''h''
     = None \<and>
   fst (TTL 5000000000 (db ttlServer) ''k'') = 95 \<and>
   snapshotData (SaveRDB 5000000000 [''k''] ttlServer)
     = [''k'' \<mapsto> GobString ''41'', ''k__ttl__'' \<mapsto> GobInt 95] \<and>
   fst (TTL 5000000000
          (db (snd (LoadRDB [''k'', ''k__ttl__'']
                      (NewServer None (rdbFile (SaveRDB 5000000000 [''k''] ttlServer))))))
          ''k'') = - 1"
proof -
  have h: "snapshotData (SaveRDB 0 [''h''] hashServer) = Map.empty"
    using Type_hashServer
    by (auto simp: SaveRDB_no_expiry(2) [OF hashServer_simps(1,2)] fun_eq_iff
        split: option.splits)
  have t: "fst (TTL 5000000000 (db ttlServer) ''k'') = 95"
    by (simp add: ttlServer_def NewServer_def TTL_ttlDb_95)
  have r1: "data (db (snd (LoadRDB [] (NewServer None (rdbFile (SaveRDB 0 [''h''] hashServer))))))
      ''h'' = None"
    by (simp add: LoadRDB_NewServer NewDatabase_def)
  have r2: "fst (TTL 5000000000
          (db (snd (LoadRDB [''k'', ''k__ttl__'']
                      (NewServer None (rdbFile (SaveRDB 5000000000 [''k''] ttlServer))))))
          ''k'') = - 1"
    by (simp add: LoadRDB_NewServer ttlServer_save TTL_after_Set)
  show ?thesis
    using hashServer_simps(3) h r1 t ttlServer_save r2 by blast
qed

text \<open>
  Claim C4, amended. Take a server with snapshots enabled whose keys have no expiry.
  Saving a snapshot leaves its database as it was, and loading that snapshot into a
  fresh server yields exactly the keys that held a string, each with its string value
  and without expiry; keys of another type are absent. When every stored value is a
  string value as \<open>Set\<close> writes it, the loaded database equals the saved one. Here
  \<open>order\<close> and \<open>order'\<close> are the orders in which the two map iterations visit the keys of
  the database and of the decoded snapshot.
\<close>

theorem snapshot_roundtrip_strings:
  assumes "rdbEnabled s" and "expiry (db s) = Map.empty"
    and "set order = dom (data (db s))"
    and "set order' = dom (snapshotData (SaveRDB now order s))"
  shows "db (SaveRDB now order s) = db s \<and>
         data (db (snd (LoadRDB order' (NewServer None (rdbFile (SaveRDB now order s))))))
           = restored (db s) \<and>
         expiry (db (snd (LoadRDB order' (NewServer None (rdbFile (SaveRDB now order s))))))
           = Map.empty \<and>
         ((\<forall>k val. data (db s) k = Some val \<longrightarrow> val = stringValue (StrVal val)) \<longrightarrow>
            db (snd (LoadRDB order' (NewServer None (rdbFile (SaveRDB now order s))))) = db s)"
proof -
  note sv = SaveRDB_no_expiry [OF assms(1,2), of now order]
  have sd: "snapshotData (SaveRDB now order s) k =
      (case data (db s) k of
         None \<Rightarrow> None
       | Some val \<Rightarrow> if Type val = StringType then Some (GobString (StrVal val)) else None)" for k
    using assms(3) by (auto simp: sv(2) split: option.splits)
  have mem: "k \<in> set order' \<longleftrightarrow> snapshotData (SaveRDB now order s) k \<noteq> None" for k
    using assms(4) by (auto simp: dom_def)
  have "data (loadLoop NewDatabase (snapshotData (SaveRDB now order s)) order') k
      = restored (db s) k" for k
    unfolding loadLoop_data
    by (simp add: mem) (simp add: sd restored_def NewDatabase_def split: option.splits)
  moreover have "expiry (loadLoop NewDatabase (snapshotData (SaveRDB now order s)) order') k
      = None" for k
    unfolding loadLoop_expiry
    by (simp add: NewDatabase_def split: option.splits GobVal.splits)
  ultimately have l: "data (loadLoop NewDatabase (snapshotData (SaveRDB now order s)) order')
      = restored (db s)"
    "expiry (loadLoop NewDatabase (snapshotData (SaveRDB now order s)) order') = Map.empty"
    by (simp_all add: fun_eq_iff)
  have "restored (db s) = data (db s)"
    if "\<forall>k val. data (db s) k = Some val \<longrightarrow> val = stringValue (StrVal val)"
  proof
    fix k
    show "restored (db s) k = data (db s) k"
    proof (cases "data (db s) k")
      case None
      then show ?thesis by (simp add: restored_def)
    next
      case (Some val)
      with that have "val = stringValue (StrVal val)" by blast
      then have "Type val = StringType" using stringValue_sel(1) by metis
      with Some \<open>val = stringValue (StrVal val)\<close> show ?thesis by (simp add: restored_def)
    qed
  qed
  with l assms(2) have "loadLoop NewDatabase (snapshotData (SaveRDB now order s)) order' = db s"
    if "\<forall>k val. data (db s) k = Some val \<longrightarrow> val = stringValue (StrVal val)"
    using that by (simp add: Database.equality)
  with l show ?thesis
    by (simp add: sv(1) LoadRDB_NewServer)
qed

theorem snapshot_roundtrip_strings_witness:
  "db (snd (LoadRDB [''b'', ''a'']
              (NewServer None (rdbFile (SaveRDB 0 [''a'', ''b''] stringServer)))))
     = db stringServer \<and>
   data (db stringServer) ''b'' = Some (stringValue ''x y'')"
proof -
  have o: "set [''a'', ''b''] = dom (data (db stringServer))"
    by (auto simp: stringServer_simps(3))
  have o': "set [''b'', ''a''] = dom (snapshotData (SaveRDB 0 [''a'', ''b''] stringServer))"
    by (auto simp: stringServer_save)
  have v: "\<forall>k val. data (db stringServer) k = Some val \<longrightarrow> val = stringValue (StrVal val)"
    by (auto simp: stringServer_simps(3) stringValue_sel split: if_splits)
  from snapshot_roundtrip_strings [OF stringServer_simps(1,2) o o'] v
  show ?thesis by (simp add: stringServer_simps(3))
qed

section \<open>Protocol errors on a connection\<close>

text \<open>
  Claim C5, as stated, fails. The stream starts with a frame whose length field does
  not parse, followed by the frame of \<open>SET a 1\<close>. The loop writes an error for the first
  and then executes the second: the client gets \<open>OK\<close> and the key is stored. The
  connection ends only at the end of the stream.
\<close>

theorem request_after_protocol_error_counterexample:
  "handleConnection unusedUpper atZero 0 (NewServer None None) (''*x'' @ crlf @ setFrame) =
     (Closed, [WriteReadError (InvalidArrayLength ''x''), WriteResponse (simpleValue ''OK'')],
      liveServer) \<and>
   data (db liveServer) ''a'' = Some (stringValue ''1'')"
proof -
  have "handleConnection unusedUpper atZero 0 (NewServer None None) (''*x'' @ crlf @ setFrame) =
      written (WriteReadError (InvalidArrayLength ''x''))
        (handleConnection unusedUpper atZero 1 (NewServer None None) setFrame)"
    using handleConnection_error [OF read_bad_length [of _ setFrame]] by simp
  also have "handleConnection unusedUpper atZero 1 (NewServer None None) setFrame =
      written (WriteResponse (simpleValue ''OK''))
        (handleConnection unusedUpper atZero 2 liveServer [])"
    using handleConnection_command [where env = atZero and i = 1 and up = unusedUpper
        and s = "NewServer None None" and stream = setFrame and r = "[]"
        and cmd = "[''SET'', ''a'', ''1'']"] read_setFrame [of "[]"]
    by (simp add: atZero_sel exec_SET numeral_2_eq_2)
  also have "handleConnection unusedUpper atZero 2 liveServer [] = (Closed, [], liveServer)"
    by (rule handleConnection_EOF [OF read_empty])
  finally show ?thesis
    by (simp add: written_def liveServer_data)
qed

text \<open>
  Claim C5, amended. A read error that \<open>readRESPArray\<close> returns as an error value does
  not end the connection: the loop writes an error reply and goes on with the bytes
  that the failed read left. So it is for a wrong type byte, which costs that one byte,
  for an array length that does not parse, which costs its line, and for every other
  error of the read but the end of the stream met at the start of a frame; a length
  line cut off by the end of the stream gets its error reply before the connection
  closes. The loop returns, closing the connection, only when the stream is exhausted
  at the start of a frame: on a stream that is not empty the read never returns the
  bare end-of-stream error. A length that parses but cannot be allocated is no error
  value: \<open>make\<close> panics, nothing is written and the process ends.
\<close>

theorem protocol_error_not_fatal:
  "(c \<noteq> CHR ''*'' \<longrightarrow>
      handleConnection up env i s (c # rest) =
        written (WriteReadError (ExpectedArray c)) (handleConnection up env (Suc i) s rest)) \<and>
   (newline \<notin> set line \<and> Atoi (TrimSpace (line @ [newline])) = None \<longrightarrow>
      handleConnection up env i s (CHR ''*'' # line @ newline # rest) =
        written (WriteReadError (InvalidArrayLength (TrimSpace (line @ [newline]))))
          (handleConnection up env (Suc i) s rest)) \<and>
   (newline \<notin> set line \<longrightarrow>
      handleConnection up env i s (CHR ''*'' # line)
        = (Closed, [WriteReadError ArrayLengthRead], s)) \<and>
   (readRESPArray (snd (snd (env i))) stream = (Failure err, rest) \<and> err \<noteq> EOF \<longrightarrow>
      handleConnection up env i s stream =
        written (WriteReadError err) (handleConnection up env (Suc i) s rest)) \<and>
   (stream \<noteq> [] \<longrightarrow> fst (readRESPArray (snd (snd (env i))) stream) \<noteq> Failure EOF) \<and>
   handleConnection up env i s [] = (Closed, [], s) \<and>
   (newline \<notin> set line \<and> Atoi (TrimSpace (line @ [newline])) = Some len \<and> 0 < len \<and>
    \<not> canMake (snd (snd (env i))) 16 len \<longrightarrow>
      handleConnection up env i s (CHR ''*'' # line @ newline # rest) = (Crashed, [], s)) \<and>
   (readRESPArray (snd (snd (env i))) stream = (Panic, rest) \<longrightarrow>
      handleConnection up env i s stream = (Crashed, [], s))"
proof (intro conjI impI)
  assume "c \<noteq> CHR ''*''"
  then show "handleConnection up env i s (c # rest) =
      written (WriteReadError (ExpectedArray c)) (handleConnection up env (Suc i) s rest)"
    by (intro handleConnection_error read_bad_type) simp_all
next
  assume a: "newline \<notin> set line \<and> Atoi (TrimSpace (line @ [newline])) = None"
  show "handleConnection up env i s (CHR ''*'' # line @ newline # rest) =
      written (WriteReadError (InvalidArrayLength (TrimSpace (line @ [newline]))))
        (handleConnection up env (Suc i) s rest)"
    by (intro handleConnection_error read_unparsable_length) (simp_all add: a)
next
  assume a: "newline \<notin> set line"
  have "handleConnection up env i s (CHR ''*'' # line) =
      written (WriteReadError ArrayLengthRead) (handleConnection up env (Suc i) s [])"
    by (intro handleConnection_error read_truncated_length) (simp_all add: a)
  also have "handleConnection up env (Suc i) s [] = (Closed, [], s)"
    by (rule handleConnection_EOF [OF read_empty])
  finally show "handleConnection up env i s (CHR ''*'' # line)
      = (Closed, [WriteReadError ArrayLengthRead], s)"
    by (simp add: written_def)
next
  assume "readRESPArray (snd (snd (env i))) stream = (Failure err, rest) \<and> err \<noteq> EOF"
  then show "handleConnection up env i s stream =
      written (WriteReadError err) (handleConnection up env (Suc i) s rest)"
    by (intro handleConnection_error) simp_all
next
  assume "stream \<noteq> []"
  then show "fst (readRESPArray (snd (snd (env i))) stream) \<noteq> Failure EOF"
    by (rule readRESPArray_not_EOF)
next
  show "handleConnection up env i s [] = (Closed, [], s)"
    by (rule handleConnection_EOF [OF read_empty])
next
  assume a: "newline \<notin> set line \<and> Atoi (TrimSpace (line @ [newline])) = Some len \<and> 0 < len \<and>
    \<not> canMake (snd (snd (env i))) 16 len"
  then have "readRESPArray (snd (snd (env i))) (CHR ''*'' # line @ newline # rest)
      = (Panic, rest)"
    using read_unallocatable_length by blast
  then show "handleConnection up env i s (CHR ''*'' # line @ newline # rest) = (Crashed, [], s)"
    by (rule handleConnection_panic)
next
  assume "readRESPArray (snd (snd (env i))) stream = (Panic, rest)"
  then show "handleConnection up env i s stream = (Crashed, [], s)"
    by (rule handleConnection_panic)
qed

theorem protocol_error_not_fatal_witness:
  "handleConnection unusedUpper atZero 0 (NewServer None None) (CHR ''X'' # pingFrame) =
     (Closed, [WriteReadError (ExpectedArray CHR ''X''), WriteResponse (simpleValue ''PONG'')],
      NewServer None None) \<and>
   handleConnection unusedUpper atZero 0 (NewServer None None) (''*x'' @ crlf @ pingFrame) =
     (Closed, [WriteReadError (InvalidArrayLength ''x''), WriteResponse (simpleValue ''PONG'')],
      NewServer None None) \<and>
   handleConnection unusedUpper atZero 0 (NewServer None None) ''*3'' =
     (Closed, [WriteReadError ArrayLengthRead], NewServer None None) \<and>
   handleConnection unusedUpper atZero 0 (NewServer None None)
       (''*1'' @ crlf @ ''$x'' @ crlf @ pingFrame) =
     (Closed, [WriteReadError (BulkStringError 0 (InvalidBulkLength ''x'')),
               WriteResponse (simpleValue ''PONG'')],
      NewServer None None) \<and>
   fst (readRESPArray maxAlloc pingFrame) \<noteq> Failure EOF \<and>
   handleConnection unusedUpper atZero 0 (NewServer None None) [] =
     (Closed, [], NewServer None None) \<and>
   handleConnection unusedUpper atZero 0 (NewServer None None)
       (''*17592186044417'' @ crlf @ pingFrame) =
     (Crashed, [], NewServer None None) \<and>
   handleConnection unusedUpper atZero 0 (NewServer None None) (negativeFrame @ pingFrame) =
     (Crashed, [], NewServer None None)"
proof -
  let ?s = "NewServer None None"
  have n: "pingFrame \<noteq> []" by (simp add: pingFrame_def)
  have x: "newline \<notin> set [CHR ''x'', CHR 0x0D]" "Atoi (TrimSpace ([CHR ''x'', CHR 0x0D] @ [newline])) = None"
    "TrimSpace ([CHR ''x'', CHR 0x0D] @ [newline]) = ''x''"
    by (simp_all add: newline_def TrimSpace_def spaceRunes_def Atoi_small)
  have t: "newline \<notin> set ''3''" by (simp add: newline_def)
  have b: "readRESPArray (snd (snd (atZero 0))) (''*1'' @ crlf @ ''$x'' @ crlf @ pingFrame)
      = (Failure (BulkStringError 0 (InvalidBulkLength ''x'')), pingFrame)"
    using read_bad_bulk_length [of pingFrame] by (simp add: atZero_sel)
  have h: "newline \<notin> set (''17592186044417'' @ [CHR 0x0D])"
    "Atoi (TrimSpace ((''17592186044417'' @ [CHR 0x0D]) @ [newline])) = Some 17592186044417"
    "\<not> canMake (snd (snd (atZero 0))) 16 17592186044417"
    by (simp_all add: newline_def TrimSpace_def spaceRunes_def Atoi_huge atZero_sel canMake_def
        maxAlloc_def)
  have g: "readRESPArray (snd (snd (atZero 0))) (negativeFrame @ pingFrame) = (Panic, pingFrame)"
    using read_negativeFrame [of pingFrame] by (simp add: atZero_sel)
  note T = protocol_error_not_fatal [where up = unusedUpper and env = atZero and i = 0 and s = ?s]
  have 1: "handleConnection unusedUpper atZero 0 ?s (CHR ''X'' # pingFrame) =
      written (WriteReadError (ExpectedArray CHR ''X''))
        (handleConnection unusedUpper atZero (Suc 0) ?s pingFrame)"
    using T [where c = "CHR ''X''" and rest = pingFrame] by simp
  have 2: "handleConnection unusedUpper atZero 0 ?s (''*x'' @ crlf @ pingFrame) =
      written (WriteReadError (InvalidArrayLength ''x''))
        (handleConnection unusedUpper atZero (Suc 0) ?s pingFrame)"
    using T [where line = "[CHR ''x'', CHR 0x0D]" and rest = pingFrame] x
    by (simp add: crlf_def newline_def)
  have 3: "handleConnection unusedUpper atZero 0 ?s ''*3'' =
      (Closed, [WriteReadError ArrayLengthRead], ?s)"
    using T [where line = "''3''"] t by simp
  have 4: "handleConnection unusedUpper atZero 0 ?s (''*1'' @ crlf @ ''$x'' @ crlf @ pingFrame) =
      written (WriteReadError (BulkStringError 0 (InvalidBulkLength ''x'')))
        (handleConnection unusedUpper atZero (Suc 0) ?s pingFrame)"
    using T [where stream = "''*1'' @ crlf @ ''$x'' @ crlf @ pingFrame" and rest = pingFrame
        and err = "BulkStringError 0 (InvalidBulkLength ''x'')"] b
    by simp
  have 5: "fst (readRESPArray maxAlloc pingFrame) \<noteq> Failure EOF"
    using T [where stream = pingFrame] n by (simp add: atZero_sel)
  have 6: "handleConnection unusedUpper atZero 0 ?s [] = (Closed, [], ?s)"
    using T by blast
  have 7: "handleConnection unusedUpper atZero 0 ?s (''*17592186044417'' @ crlf @ pingFrame) =
      (Crashed, [], ?s)"
    using T [where line = "''17592186044417'' @ [CHR 0x0D]" and rest = pingFrame
        and len = 17592186044417] h
    by (simp add: crlf_def newline_def)
  have 8: "handleConnection unusedUpper atZero 0 ?s (negativeFrame @ pingFrame) = (Crashed, [], ?s)"
    using T [where stream = "negativeFrame @ pingFrame" and rest = pingFrame] g by simp
  from 1 2 3 4 5 6 7 8 show ?thesis
    by (simp add: handleConnection_ping written_def)
qed

end
